theory Spec2Isabelle
  imports Complex_Main "HOL-Library.Char_ord" "HOL-Library.List_Lexorder"
begin

section \<open>The design space data model\<close>

text \<open>
  The development embeds \<^verbatim>\<open>Lib/ufoProcessor/designspaceLib.py\<close>.  Python numbers
  (ints and floats alike) are modelled as exact rationals: the embedding follows the
  branches and the arithmetic of the code, not the rounding of IEEE doubles.  A Python
  exception is a value of type \<open>error\<close>; a function that may raise returns
  \<open>error + 'a\<close>, with \<open>Inl\<close> for the exception.  Comparisons follow Python 3:
  ordering a number against \<^verbatim>\<open>None\<close> or against a tuple raises \<^verbatim>\<open>TypeError\<close>.
\<close>

datatype error = KeyError | TypeError | AttributeError | IndexError

text \<open>
  A location value is a number or an anisotropic pair \<^verbatim>\<open>(xvalue, yvalue)\<close>, as
  \<^verbatim>\<open>readLocationElement\<close> builds them.  A location is a Python dict from axis names
  to such values.
\<close>

datatype locvalue = Scalar rat | Aniso rat rat

type_synonym location = "string \<rightharpoonup> locvalue"

text \<open>\<^verbatim>\<open>class AxisDescriptor\<close>.  The field \<^verbatim>\<open>map\<close> is named \<open>axis_map\<close>.\<close>

record AxisDescriptor =
  axis_tag :: string
  axis_name :: string
  axis_labelNames :: "(string \<times> string) list"
  axis_minimum :: rat
  axis_maximum :: rat
  axis_default :: rat
  axis_hidden :: bool
  axis_map :: "(rat \<times> rat) list"

text \<open>\<^verbatim>\<open>class SourceDescriptor\<close> (the in-memory \<^verbatim>\<open>font\<close> object is left out:
  neither the reader nor the writer touches it).\<close>

record SourceDescriptor =
  src_filename :: "string option"
  src_path :: "string option"
  src_name :: "string option"
  src_location :: "location option"
  src_layerName :: "string option"
  src_copyLib :: bool
  src_copyInfo :: bool
  src_copyGroups :: bool
  src_copyFeatures :: bool
  src_muteKerning :: bool
  src_muteInfo :: bool
  src_mutedGlyphNames :: "string list"
  src_familyName :: "string option"
  src_styleName :: "string option"

text \<open>
  A rule condition is the dict \<^verbatim>\<open>dict(name=..., minimum=..., maximum=...)\<close> of
  \<^verbatim>\<open>_readConditionElements\<close>: all three keys are present, a bound that is not
  given is \<^verbatim>\<open>None\<close>.
\<close>

record condition =
  cond_name :: string
  cond_minimum :: "rat option"
  cond_maximum :: "rat option"

text \<open>\<^verbatim>\<open>class RuleDescriptor\<close>.\<close>

record RuleDescriptor =
  rule_name :: "string option"
  conditionSets :: "condition list list"
  subs :: "(string \<times> string) list"

text \<open>
  An entry of a dict under one key, for the keys that the code subscripts: the key is
  absent, or it is present with a value that may be \<^verbatim>\<open>None\<close>.  The subscript
  \<^verbatim>\<open>d[key]\<close> raises \<^verbatim>\<open>KeyError\<close> on an absent key; \<^verbatim>\<open>d.get(key)\<close> gives \<^verbatim>\<open>None\<close>
  for it.
\<close>

datatype 'a entry = Absent | Present "'a option"

fun subscript :: "'a entry \<Rightarrow> error + 'a option" where
  "subscript Absent = Inl KeyError"
| "subscript (Present v) = Inr v"

fun entry_get :: "'a entry \<Rightarrow> 'a option" where
  "entry_get Absent = None"
| "entry_get (Present v) = v"

text \<open>
  The per-glyph data of an instance.  A master is a dict with the keys \<^verbatim>\<open>font\<close>,
  \<^verbatim>\<open>location\<close> and \<^verbatim>\<open>glyphName\<close>; the glyph data is a dict with the keys
  \<^verbatim>\<open>mute\<close>, \<^verbatim>\<open>unicodes\<close>, \<^verbatim>\<open>note\<close>, \<^verbatim>\<open>instanceLocation\<close> and \<^verbatim>\<open>masters\<close>.
  The keys \<^verbatim>\<open>location\<close>, \<^verbatim>\<open>instanceLocation\<close> and \<^verbatim>\<open>masters\<close> are subscripted by
  \<^verbatim>\<open>normalize\<close> and are entries; the other keys are only read with \<^verbatim>\<open>.get\<close>, so
  \<open>None\<close> stands for the absent key and for the value \<^verbatim>\<open>None\<close> alike.
\<close>

record glyphMaster =
  gm_font :: "string option"
  gm_location :: "location entry"
  gm_glyphName :: "string option"

record glyphData =
  gd_mute :: "bool option"
  gd_unicodes :: "nat list option"
  gd_note :: "string option"
  gd_instanceLocation :: "location entry"
  gd_masters :: "glyphMaster list entry"

text \<open>
  An XML element, as \<^verbatim>\<open>xml.etree.ElementTree\<close> holds it: a tag, the attributes
  in the order they were set, an optional text and the children.
\<close>

datatype element = Element string "(string \<times> string) list" "string option" "element list"

text \<open>
  \<^verbatim>\<open>class InstanceDescriptor\<close>.  The dicts of localised names and the glyph dict are
  association lists (in insertion order, keys distinct).  The \<^verbatim>\<open>lib\<close> dict is held in
  the form the writer needs: \<open>None\<close> when the dict is empty, otherwise the plist
  element that \<^verbatim>\<open>to_plist\<close> (through \<^verbatim>\<open>plistlib\<close>) renders it to.
\<close>

record InstanceDescriptor =
  inst_filename :: "string option"
  inst_path :: "string option"
  inst_name :: "string option"
  inst_location :: "location option"
  inst_familyName :: "string option"
  inst_styleName :: "string option"
  inst_postScriptFontName :: "string option"
  inst_styleMapFamilyName :: "string option"
  inst_styleMapStyleName :: "string option"
  inst_localisedStyleName :: "(string \<times> string) list"
  inst_localisedFamilyName :: "(string \<times> string) list"
  inst_localisedStyleMapStyleName :: "(string \<times> string) list"
  inst_localisedStyleMapFamilyName :: "(string \<times> string) list"
  inst_glyphs :: "(string \<times> glyphData) list"
  inst_kerning :: bool
  inst_info :: bool
  inst_lib :: "element option"

text \<open>\<^verbatim>\<open>class DesignSpaceDocument\<close>: the attributes the operations below read or
  write.  The field \<^verbatim>\<open>default\<close> is named \<open>doc_default\<close>.\<close>

record DesignSpaceDocument =
  doc_path :: "string option"
  doc_filename :: "string option"
  sources :: "SourceDescriptor list"
  instances :: "InstanceDescriptor list"
  axes :: "AxisDescriptor list"
  rules :: "RuleDescriptor list"
  doc_default :: "SourceDescriptor option"
  defaultLoc :: "location option"
  doc_lib :: "element option"

section \<open>Normalising a location\<close>

text \<open>\<^verbatim>\<open>if type(v)==tuple: v = v[0]\<close>\<close>

fun first_component :: "locvalue \<Rightarrow> rat" where
  "first_component (Scalar v) = v"
| "first_component (Aniso x y) = x"

text \<open>The body of the loop of \<^verbatim>\<open>normalizeLocation\<close> for one axis whose name is a key
  of the location: the value stored under the axis name.\<close>

definition normalizeValue :: "AxisDescriptor \<Rightarrow> locvalue \<Rightarrow> rat" where
  "normalizeValue axis lv =
     (let v = first_component lv in
      if v = axis_default axis then 0
      else if v < axis_default axis then
        (if axis_default axis = axis_minimum axis then 0
         else (max v (axis_minimum axis) - axis_default axis)
                / (axis_default axis - axis_minimum axis))
      else
        (if axis_default axis = axis_maximum axis then 0
         else (min v (axis_maximum axis) - axis_default axis)
                / (axis_maximum axis - axis_default axis)))"

text \<open>The loop over \<^verbatim>\<open>self.axes\<close>; \<open>new\<close> is the dict under construction.  An axis
  whose name is no key of the location is skipped (\<^verbatim>\<open>continue\<close>).\<close>

fun normalizeLocation_loop ::
  "AxisDescriptor list \<Rightarrow> location \<Rightarrow> (string \<rightharpoonup> rat) \<Rightarrow> (string \<rightharpoonup> rat)" where
  "normalizeLocation_loop [] location new = new"
| "normalizeLocation_loop (axis # rest) location new =
     (case location (axis_name axis) of
        None \<Rightarrow> normalizeLocation_loop rest location new
      | Some lv \<Rightarrow>
          normalizeLocation_loop rest location (new(axis_name axis \<mapsto> normalizeValue axis lv)))"

definition normalizeLocation ::
  "DesignSpaceDocument \<Rightarrow> location \<Rightarrow> (string \<rightharpoonup> rat)" where
  "normalizeLocation self location = normalizeLocation_loop (axes self) location Map.empty"

text \<open>The interval clamp of the specification's formulas.\<close>

definition clamp :: "rat \<Rightarrow> rat \<Rightarrow> rat \<Rightarrow> rat" where
  "clamp v lo hi = min (max v lo) hi"

section \<open>The rule engine\<close>

text \<open>
  \<^verbatim>\<open>evaluateConditions\<close>: the loop over the conditions.  \<^verbatim>\<open>location[cd['name']]\<close>
  raises \<^verbatim>\<open>KeyError\<close> on a missing key.  With no minimum the code compares
  \<^verbatim>\<open>value > cd['maximum']\<close>, which raises \<^verbatim>\<open>TypeError\<close> when the maximum is
  \<^verbatim>\<open>None\<close> too; every comparison of a tuple with a number raises \<^verbatim>\<open>TypeError\<close>.
  The first condition that fails returns \<^verbatim>\<open>False\<close> at once.
\<close>

fun evaluateConditions :: "condition list \<Rightarrow> location \<Rightarrow> error + bool" where
  "evaluateConditions [] location = Inr True"
| "evaluateConditions (cd # conditions) location =
     (case location (cond_name cd) of
        None \<Rightarrow> Inl KeyError
      | Some val \<Rightarrow>
          (case cond_minimum cd of
             None \<Rightarrow>
               (case cond_maximum cd of
                  None \<Rightarrow> Inl TypeError
                | Some mx \<Rightarrow>
                    (case val of
                       Aniso x y \<Rightarrow> Inl TypeError
                     | Scalar v \<Rightarrow>
                         if v > mx then Inr False
                         else evaluateConditions conditions location))
           | Some mn \<Rightarrow>
               (case cond_maximum cd of
                  None \<Rightarrow>
                    (case val of
                       Aniso x y \<Rightarrow> Inl TypeError
                     | Scalar v \<Rightarrow>
                         if mn > v then Inr False
                         else evaluateConditions conditions location)
                | Some mx \<Rightarrow>
                    (case val of
                       Aniso x y \<Rightarrow> Inl TypeError
                     | Scalar v \<Rightarrow>
                         if \<not> (mn \<le> v \<and> v \<le> mx) then Inr False
                         else evaluateConditions conditions location))))"

text \<open>\<^verbatim>\<open>any(evaluateConditions(c, location) for c in rule.conditionSets)\<close>: the
  generator is consumed up to the first \<^verbatim>\<open>True\<close>; an exception on the way leaves
  through \<^verbatim>\<open>any\<close>.\<close>

fun any_conditionSets :: "condition list list \<Rightarrow> location \<Rightarrow> error + bool" where
  "any_conditionSets [] location = Inr False"
| "any_conditionSets (c # cs) location =
     (case evaluateConditions c location of
        Inl e \<Rightarrow> Inl e
      | Inr True \<Rightarrow> Inr True
      | Inr False \<Rightarrow> any_conditionSets cs location)"

definition evaluateRule :: "RuleDescriptor \<Rightarrow> location \<Rightarrow> error + bool" where
  "evaluateRule rule location = any_conditionSets (conditionSets rule) location"

text \<open>
  The inner loop of \<^verbatim>\<open>processRules\<close>, \<^verbatim>\<open>for a, b in rule.subs\<close>: it leaves through
  \<^verbatim>\<open>break\<close> at the first pair with \<^verbatim>\<open>name == a\<close>, with \<^verbatim>\<open>swap\<close> set and \<^verbatim>\<open>b\<close>
  bound to that pair's second component (the result \<open>Some b\<close>), or it runs to the
  end with \<^verbatim>\<open>swap\<close> still \<^verbatim>\<open>False\<close> (the result \<open>None\<close>).
\<close>

fun subs_loop :: "(string \<times> string) list \<Rightarrow> string \<Rightarrow> string option" where
  "subs_loop [] name = None"
| "subs_loop ((a, b) # rest) name = (if name = a then Some b else subs_loop rest name)"

text \<open>The loop \<^verbatim>\<open>for name in glyphNames\<close>, appending to \<^verbatim>\<open>newNames\<close>.\<close>

fun names_loop :: "(string \<times> string) list \<Rightarrow> string list \<Rightarrow> string list \<Rightarrow> string list" where
  "names_loop sbs [] newNames = newNames"
| "names_loop sbs (name # rest) newNames =
     (case subs_loop sbs name of
        Some b \<Rightarrow> names_loop sbs rest (newNames @ [b])
      | None \<Rightarrow> names_loop sbs rest (newNames @ [name]))"

fun processRules :: "RuleDescriptor list \<Rightarrow> location \<Rightarrow> string list \<Rightarrow> error + string list" where
  "processRules [] location glyphNames = Inr glyphNames"
| "processRules (rule # rest) location glyphNames =
     (case evaluateRule rule location of
        Inl e \<Rightarrow> Inl e
      | Inr True \<Rightarrow> processRules rest location (names_loop (subs rule) glyphNames [])
      | Inr False \<Rightarrow> processRules rest location glyphNames)"

section \<open>Finding the default source\<close>

text \<open>The two loops of \<^verbatim>\<open>findDefault\<close>; each returns at the first source it accepts.\<close>

fun first_at_location :: "SourceDescriptor list \<Rightarrow> location option \<Rightarrow> SourceDescriptor option" where
  "first_at_location [] loc = None"
| "first_at_location (sourceDescriptor # rest) loc =
     (if src_location sourceDescriptor = loc then Some sourceDescriptor
      else first_at_location rest loc)"

fun first_copyInfo :: "SourceDescriptor list \<Rightarrow> SourceDescriptor option" where
  "first_copyInfo [] = None"
| "first_copyInfo (sourceDescriptor # rest) =
     (if src_copyInfo sourceDescriptor then Some sourceDescriptor
      else first_copyInfo rest)"

text \<open>
  \<^verbatim>\<open>findDefault\<close> returns the source it chose (or \<^verbatim>\<open>None\<close>), the document with its
  \<^verbatim>\<open>default\<close> attribute assigned, and the warnings it issued through
  \<^verbatim>\<open>warnings.warn\<close>.
\<close>

definition findDefault ::
  "DesignSpaceDocument \<Rightarrow> SourceDescriptor option \<times> DesignSpaceDocument \<times> string list" where
  "findDefault self =
     (let self1 = self\<lparr>doc_default := None\<rparr> in
      case first_at_location (sources self1) (defaultLoc self1) of
        Some sourceDescriptor \<Rightarrow>
          (Some sourceDescriptor, self1\<lparr>doc_default := Some sourceDescriptor\<rparr>, [])
      | None \<Rightarrow>
          (case first_copyInfo (sources self1) of
             Some sourceDescriptor \<Rightarrow>
               (Some sourceDescriptor, self1\<lparr>doc_default := Some sourceDescriptor\<rparr>, [])
           | None \<Rightarrow>
               (None, self1,
                [''Can't find a suitable default location in this document.''])))"

section \<open>Normalising the whole document\<close>

text \<open>
  \<^verbatim>\<open>self.normalizeLocation(x)\<close> where \<open>x\<close> is an attribute that may be \<^verbatim>\<open>None\<close>:
  the test \<^verbatim>\<open>axis.name in location\<close> of the first axis then raises \<^verbatim>\<open>TypeError\<close>;
  with no axes the loop body never runs and the result is the empty dict.  The
  result is stored as a location, all of whose values are numbers.
\<close>

definition normalizeLocation_attr ::
  "DesignSpaceDocument \<Rightarrow> location option \<Rightarrow> error + location" where
  "normalizeLocation_attr self loc =
     (case loc of
        None \<Rightarrow> (if axes self = [] then Inr Map.empty else Inl TypeError)
      | Some location \<Rightarrow> Inr (map_option Scalar \<circ> normalizeLocation self location))"

text \<open>\<^verbatim>\<open>for item in self.sources: item.location = self.normalizeLocation(item.location)\<close>\<close>

fun normalize_sources ::
  "DesignSpaceDocument \<Rightarrow> SourceDescriptor list \<Rightarrow> error + SourceDescriptor list" where
  "normalize_sources self [] = Inr []"
| "normalize_sources self (item # rest) =
     (case normalizeLocation_attr self (src_location item) of
        Inl e \<Rightarrow> Inl e
      | Inr loc \<Rightarrow>
          (case normalize_sources self rest of
             Inl e \<Rightarrow> Inl e
           | Inr rest' \<Rightarrow> Inr (item\<lparr>src_location := Some loc\<rparr> # rest')))"

text \<open>The loop \<^verbatim>\<open>for glyphMaster in glyphData['masters']\<close> over a list of masters, with
  the body \<^verbatim>\<open>glyphMaster['location'] = self.normalizeLocation(glyphMaster['location'])\<close>.\<close>

fun normalize_masters ::
  "DesignSpaceDocument \<Rightarrow> glyphMaster list \<Rightarrow> error + glyphMaster list" where
  "normalize_masters self [] = Inr []"
| "normalize_masters self (glyphMaster # rest) =
     (case subscript (gm_location glyphMaster) of
        Inl e \<Rightarrow> Inl e
      | Inr location \<Rightarrow>
          (case normalizeLocation_attr self location of
             Inl e \<Rightarrow> Inl e
           | Inr loc \<Rightarrow>
               (case normalize_masters self rest of
                  Inl e \<Rightarrow> Inl e
                | Inr rest' \<Rightarrow>
                    Inr (glyphMaster\<lparr>gm_location := Present (Some loc)\<rparr> # rest'))))"

text \<open>
  The body of \<^verbatim>\<open>for name, glyphData in item.glyphs.items()\<close>.  The subscripts
  \<^verbatim>\<open>glyphData['instanceLocation']\<close> and \<^verbatim>\<open>glyphData['masters']\<close> raise \<^verbatim>\<open>KeyError\<close>
  when the key is absent.  A key that is present with the value \<^verbatim>\<open>None\<close> gets
  further: \<^verbatim>\<open>normalizeLocation(None)\<close> raises \<^verbatim>\<open>TypeError\<close> on a document with axes,
  and \<^verbatim>\<open>for glyphMaster in None\<close> raises \<^verbatim>\<open>TypeError\<close>.
\<close>

definition normalize_glyphData :: "DesignSpaceDocument \<Rightarrow> glyphData \<Rightarrow> error + glyphData" where
  "normalize_glyphData self glyphData =
     (case subscript (gd_instanceLocation glyphData) of
        Inl e \<Rightarrow> Inl e
      | Inr instanceLocation \<Rightarrow>
          (case normalizeLocation_attr self instanceLocation of
             Inl e \<Rightarrow> Inl e
           | Inr loc \<Rightarrow>
               (case subscript (gd_masters glyphData) of
                  Inl e \<Rightarrow> Inl e
                | Inr None \<Rightarrow> Inl TypeError
                | Inr (Some masters) \<Rightarrow>
                    (case normalize_masters self masters of
                       Inl e \<Rightarrow> Inl e
                     | Inr masters' \<Rightarrow>
                         Inr (glyphData\<lparr>gd_instanceLocation := Present (Some loc),
                                         gd_masters := Present (Some masters')\<rparr>)))))"

fun normalize_glyphs ::
  "DesignSpaceDocument \<Rightarrow> (string \<times> glyphData) list \<Rightarrow> error + (string \<times> glyphData) list" where
  "normalize_glyphs self [] = Inr []"
| "normalize_glyphs self ((name, glyphData) # rest) =
     (case normalize_glyphData self glyphData of
        Inl e \<Rightarrow> Inl e
      | Inr glyphData' \<Rightarrow>
          (case normalize_glyphs self rest of
             Inl e \<Rightarrow> Inl e
           | Inr rest' \<Rightarrow> Inr ((name, glyphData') # rest')))"

text \<open>\<^verbatim>\<open>for item in self.instances\<close>: the glyph masters first, then the location of
  the instance itself.\<close>

fun normalize_instances ::
  "DesignSpaceDocument \<Rightarrow> InstanceDescriptor list \<Rightarrow> error + InstanceDescriptor list" where
  "normalize_instances self [] = Inr []"
| "normalize_instances self (item # rest) =
     (case normalize_glyphs self (inst_glyphs item) of
        Inl e \<Rightarrow> Inl e
      | Inr glyphs' \<Rightarrow>
          (case normalizeLocation_attr self (inst_location item) of
             Inl e \<Rightarrow> Inl e
           | Inr loc \<Rightarrow>
               (case normalize_instances self rest of
                  Inl e \<Rightarrow> Inl e
                | Inr rest' \<Rightarrow>
                    Inr (item\<lparr>inst_glyphs := glyphs', inst_location := Some loc\<rparr> # rest'))))"

text \<open>
  \<^verbatim>\<open>self.normalizeLocation({name: value}).get(name)\<close>, the form in which the axes and
  the rules are rescaled: \<open>None\<close> when no axis of the document has that name.
\<close>

definition normalizeSingle :: "DesignSpaceDocument \<Rightarrow> string \<Rightarrow> rat \<Rightarrow> rat option" where
  "normalizeSingle self name v = normalizeLocation self [name \<mapsto> Scalar v] name"

text \<open>
  The loop \<^verbatim>\<open>for axis in self.axes\<close>.  The axis objects are changed in place, one
  after the other, and every call of \<^verbatim>\<open>normalizeLocation\<close> reads the list as it stands:
  \<open>finished\<close> are the axes already rescaled, \<open>axis # rest\<close> those still in their
  original state.  The new map and the three new bounds of an axis are all computed
  before the first of them is assigned.  For an axis of the document the lookup
  \<^verbatim>\<open>.get(axis.name)\<close> always finds a value (lemma \<open>normalizeSingle_declared\<close> below),
  so \<open>the\<close> is only ever applied to \<open>Some\<close>.
\<close>

definition normalize_axis ::
  "DesignSpaceDocument \<Rightarrow> AxisDescriptor \<Rightarrow> AxisDescriptor" where
  "normalize_axis self axis =
     (let newMap = map (\<lambda>(inputValue, outputValue).
                      (inputValue, the (normalizeSingle self (axis_name axis) outputValue)))
                    (axis_map axis);
          minimum = the (normalizeSingle self (axis_name axis) (axis_minimum axis));
          maximum = the (normalizeSingle self (axis_name axis) (axis_maximum axis));
          default = the (normalizeSingle self (axis_name axis) (axis_default axis))
      in axis\<lparr>axis_map := (if newMap \<noteq> [] then newMap else axis_map axis),
              axis_minimum := minimum, axis_maximum := maximum, axis_default := default\<rparr>)"

fun normalize_axes ::
  "DesignSpaceDocument \<Rightarrow> AxisDescriptor list \<Rightarrow> AxisDescriptor list \<Rightarrow> AxisDescriptor list" where
  "normalize_axes self finished [] = finished"
| "normalize_axes self finished (axis # rest) =
     normalize_axes self
       (finished @ [normalize_axis (self\<lparr>axes := finished @ axis # rest\<rparr>) axis]) rest"

text \<open>The loop over the rules, run after the axes have been rescaled.\<close>

definition normalize_condition :: "DesignSpaceDocument \<Rightarrow> condition \<Rightarrow> condition" where
  "normalize_condition self cond =
     (let minimum = (case cond_minimum cond of
                       Some m \<Rightarrow> normalizeSingle self (cond_name cond) m
                     | None \<Rightarrow> None);
          maximum = (case cond_maximum cond of
                       Some m \<Rightarrow> normalizeSingle self (cond_name cond) m
                     | None \<Rightarrow> None)
      in \<lparr>cond_name = cond_name cond, cond_minimum = minimum, cond_maximum = maximum\<rparr>)"

definition normalize_rule :: "DesignSpaceDocument \<Rightarrow> RuleDescriptor \<Rightarrow> RuleDescriptor" where
  "normalize_rule self rule =
     rule\<lparr>conditionSets := map (map (normalize_condition self)) (conditionSets rule)\<rparr>"

text \<open>
  \<^verbatim>\<open>DesignSpaceDocument.normalize\<close>.  An exception ends the call; the document of
  the result is the document after a call that returned.
\<close>

definition normalize :: "DesignSpaceDocument \<Rightarrow> error + DesignSpaceDocument" where
  "normalize self =
     (case normalize_sources self (sources self) of
        Inl e \<Rightarrow> Inl e
      | Inr sources' \<Rightarrow>
          (case normalize_instances self (instances self) of
             Inl e \<Rightarrow> Inl e
           | Inr instances' \<Rightarrow>
               (let self1 = self\<lparr>sources := sources', instances := instances'\<rparr>;
                    self2 = self1\<lparr>axes := normalize_axes self1 [] (axes self1)\<rparr>;
                    self3 = self2\<lparr>rules := map (normalize_rule self2) (rules self2)\<rparr>
                in Inr self3)))"

section \<open>Building XML elements\<close>

text \<open>The operations of \<^verbatim>\<open>ElementTree\<close> the writer uses.  \<open>dict_set\<close> is the
  assignment \<^verbatim>\<open>d[k] = v\<close> on a dict kept in insertion order.\<close>

fun tag_of :: "element \<Rightarrow> string" where
  "tag_of (Element t a x c) = t"

fun attrib_of :: "element \<Rightarrow> (string \<times> string) list" where
  "attrib_of (Element t a x c) = a"

fun children_of :: "element \<Rightarrow> element list" where
  "children_of (Element t a x c) = c"

definition new_element :: "string \<Rightarrow> element" where
  "new_element t = Element t [] None []"

fun dict_set :: "'k \<Rightarrow> 'v \<Rightarrow> ('k \<times> 'v) list \<Rightarrow> ('k \<times> 'v) list" where
  "dict_set k v [] = [(k, v)]"
| "dict_set k v ((k', v') # rest) =
     (if k' = k then (k, v) # rest else (k', v') # dict_set k v rest)"

fun set_attrib :: "string \<Rightarrow> string \<Rightarrow> element \<Rightarrow> element" where
  "set_attrib k v (Element t a x c) = Element t (dict_set k v a) x c"

fun set_text :: "string \<Rightarrow> element \<Rightarrow> element" where
  "set_text s (Element t a x c) = Element t a (Some s) c"

fun append_child :: "element \<Rightarrow> element \<Rightarrow> element" where
  "append_child (Element t a x c) e = Element t a x (c @ [e])"

text \<open>\<^verbatim>\<open>self.root.findall('.tag')[0].append(e)\<close>: the element goes to the first child
  of the root with that tag; the subscript raises \<^verbatim>\<open>IndexError\<close> when there is none.\<close>

fun append_to_first :: "string \<Rightarrow> element \<Rightarrow> element list \<Rightarrow> element list option" where
  "append_to_first t e [] = None"
| "append_to_first t e (c # cs) =
     (if tag_of c = t then Some (append_child c e # cs)
      else map_option ((#) c) (append_to_first t e cs))"

fun append_in_section :: "string \<Rightarrow> element \<Rightarrow> element \<Rightarrow> error + element" where
  "append_in_section t e (Element rt ra rx rc) =
     (case append_to_first t e rc of
        None \<Rightarrow> Inl IndexError
      | Some rc' \<Rightarrow> Inr (Element rt ra rx rc'))"

section \<open>Printing numbers\<close>

text \<open>Decimal digits of a natural number, as \<^verbatim>\<open>"%d"\<close> prints them.\<close>

definition digit_char :: "nat \<Rightarrow> char" where
  "digit_char d = ''0123456789abcdef'' ! d"

fun show_nat :: "nat \<Rightarrow> string" where
  "show_nat n = (if n < 10 then [digit_char n] else show_nat (n div 10) @ [digit_char (n mod 10)])"

declare show_nat.simps [simp del]

text \<open>\<^verbatim>\<open>hex(u)\<close>\<close>

fun hex_digits :: "nat \<Rightarrow> string" where
  "hex_digits n = (if n < 16 then [digit_char n] else hex_digits (n div 16) @ [digit_char (n mod 16)])"

declare hex_digits.simps [simp del]

definition hex :: "nat \<Rightarrow> string" where
  "hex u = ''0x'' @ hex_digits u"

text \<open>\<^verbatim>\<open>int(num)\<close> truncates towards zero; \<^verbatim>\<open>"%d" % num\<close> prints that integer.\<close>

definition py_int :: "rat \<Rightarrow> int" where
  "py_int num = (if 0 \<le> num then \<lfloor>num\<rfloor> else \<lceil>num\<rceil>)"

definition format_d :: "rat \<Rightarrow> string" where
  "format_d num =
     (let i = py_int num in
      if i < 0 then CHR ''-'' # show_nat (nat (- i)) else show_nat (nat i))"

text \<open>
  \<^verbatim>\<open>"%f" % num\<close>: fixed-point notation with six digits after the point.  The value
  is rounded to the nearest multiple of \<open>10\<^sup>-\<^sup>6\<close>, a tie going to the even digit; the
  sign is printed whenever the number is negative.
\<close>

definition round_half_even :: "rat \<Rightarrow> nat" where
  "round_half_even x =
     (let f = \<lfloor>x\<rfloor>; d = x - of_int f in
      nat (if d < 1 / 2 then f else if 1 / 2 < d then f + 1
           else if even f then f else f + 1))"

definition pad6 :: "string \<Rightarrow> string" where
  "pad6 s = replicate (6 - length s) CHR ''0'' @ s"

definition format_f :: "rat \<Rightarrow> string" where
  "format_f num =
     (let n = round_half_even (\<bar>num\<bar> * 1000000) in
      (if num < 0 then ''-'' else '''')
        @ show_nat (n div 1000000) @ ''.'' @ pad6 (show_nat (n mod 1000000)))"

text \<open>\<^verbatim>\<open>BaseDocWriter.intOrFloat\<close>\<close>

definition intOrFloat :: "rat \<Rightarrow> string" where
  "intOrFloat num = (if of_int (py_int num) = num then format_d num else format_f num)"

section \<open>Writing the document\<close>

text \<open>\<^verbatim>\<open>newDefaultLocation\<close>: an ordered dict, one entry per axis name, in the order
  of the axes.\<close>

fun newDefaultLocation_loop ::
  "AxisDescriptor list \<Rightarrow> (string \<times> locvalue) list \<Rightarrow> (string \<times> locvalue) list" where
  "newDefaultLocation_loop [] loc = loc"
| "newDefaultLocation_loop (axisDescriptor # rest) loc =
     newDefaultLocation_loop rest
       (dict_set (axis_name axisDescriptor) (Scalar (axis_default axisDescriptor)) loc)"

definition newDefaultLocation :: "DesignSpaceDocument \<Rightarrow> (string \<times> locvalue) list" where
  "newDefaultLocation self = newDefaultLocation_loop (axes self) []"

text \<open>One \<^verbatim>\<open>dimension\<close> element of a location element.\<close>

definition dimension_element :: "string \<Rightarrow> locvalue \<Rightarrow> element" where
  "dimension_element dimensionName dimensionValue =
     (let dimElement = set_attrib ''name'' dimensionName (new_element ''dimension'') in
      case dimensionValue of
        Aniso x y \<Rightarrow>
          set_attrib ''yvalue'' (intOrFloat y) (set_attrib ''xvalue'' (intOrFloat x) dimElement)
      | Scalar v \<Rightarrow> set_attrib ''xvalue'' (intOrFloat v) dimElement)"

fun dimensions_loop :: "(string \<times> locvalue) list \<Rightarrow> element \<Rightarrow> element" where
  "dimensions_loop [] locElement = locElement"
| "dimensions_loop ((dimensionName, dimensionValue) # rest) locElement =
     dimensions_loop rest
       (append_child locElement (dimension_element dimensionName dimensionValue))"

text \<open>
  \<^verbatim>\<open>_makeLocationElement\<close>.  The loop over \<^verbatim>\<open>locationObject.items()\<close> overwrites the
  entry of every key of the location that the validated location already has, and adds
  no key; since the keys of a dict are distinct, the outcome is the validated location
  with each entry replaced by the location's value under that key, when it has one.
  \<^verbatim>\<open>locationObject.items()\<close> raises \<^verbatim>\<open>AttributeError\<close> when the location is
  \<^verbatim>\<open>None\<close>.  The result is the element and the validated location.
\<close>

definition makeLocationElement ::
  "DesignSpaceDocument \<Rightarrow> location option \<Rightarrow> string option
     \<Rightarrow> error + (element \<times> (string \<times> locvalue) list)" where
  "makeLocationElement self locationObject name =
     (let locElement = new_element ''location'';
          locElement = (case name of
                          Some n \<Rightarrow> set_attrib ''name'' n locElement
                        | None \<Rightarrow> locElement);
          validatedLocation = newDefaultLocation self
      in case locationObject of
           None \<Rightarrow> Inl AttributeError
         | Some location \<Rightarrow>
             (let validatedLocation =
                    map (\<lambda>(axisName, d).
                           (axisName, case location axisName of
                                        Some axisValue \<Rightarrow> axisValue
                                      | None \<Rightarrow> d))
                      validatedLocation
              in Inr (dimensions_loop validatedLocation locElement, validatedLocation)))"

text \<open>The validated location as it is stored back into a descriptor.\<close>

definition stored :: "(string \<times> locvalue) list \<Rightarrow> location option" where
  "stored validatedLocation = Some (map_of validatedLocation)"

subsection \<open>Rules\<close>

definition condition_element :: "condition \<Rightarrow> element" where
  "condition_element cond =
     (let conditionElement = set_attrib ''name'' (cond_name cond) (new_element ''condition'');
          conditionElement = (case cond_minimum cond of
                                Some m \<Rightarrow> set_attrib ''minimum'' (intOrFloat m) conditionElement
                              | None \<Rightarrow> conditionElement);
          conditionElement = (case cond_maximum cond of
                                Some m \<Rightarrow> set_attrib ''maximum'' (intOrFloat m) conditionElement
                              | None \<Rightarrow> conditionElement)
      in conditionElement)"

text \<open>The loop \<^verbatim>\<open>for cond in conditions\<close>: a condition with neither bound is
  skipped (\<^verbatim>\<open>continue\<close>).\<close>

fun conditions_loop :: "condition list \<Rightarrow> element \<Rightarrow> element" where
  "conditions_loop [] conditionsetElement = conditionsetElement"
| "conditions_loop (cond # rest) conditionsetElement =
     (if cond_minimum cond = None \<and> cond_maximum cond = None
      then conditions_loop rest conditionsetElement
      else conditions_loop rest (append_child conditionsetElement (condition_element cond)))"

text \<open>The loop \<^verbatim>\<open>for conditions in ruleObject.conditionSets\<close>: the condition set
  element is appended \<^verbatim>\<open>if len(conditionsetElement)\<close>.\<close>

fun conditionSets_loop :: "condition list list \<Rightarrow> element \<Rightarrow> element" where
  "conditionSets_loop [] ruleElement = ruleElement"
| "conditionSets_loop (conditions # rest) ruleElement =
     (let conditionsetElement = conditions_loop conditions (new_element ''conditionset'') in
      if length (children_of conditionsetElement) \<noteq> 0
      then conditionSets_loop rest (append_child ruleElement conditionsetElement)
      else conditionSets_loop rest ruleElement)"

definition sub_element :: "string \<times> string \<Rightarrow> element" where
  "sub_element sub =
     set_attrib ''with'' (snd sub) (set_attrib ''name'' (fst sub) (new_element ''sub''))"

fun subs_elements_loop :: "(string \<times> string) list \<Rightarrow> element \<Rightarrow> element" where
  "subs_elements_loop [] ruleElement = ruleElement"
| "subs_elements_loop (sub # rest) ruleElement =
     subs_elements_loop rest (append_child ruleElement (sub_element sub))"

text \<open>The rule element that \<^verbatim>\<open>_addRule\<close> builds.\<close>

definition rule_element :: "RuleDescriptor \<Rightarrow> element" where
  "rule_element ruleObject =
     (let ruleElement = new_element ''rule'';
          ruleElement = (case rule_name ruleObject of
                           Some n \<Rightarrow> set_attrib ''name'' n ruleElement
                         | None \<Rightarrow> ruleElement);
          ruleElement = conditionSets_loop (conditionSets ruleObject) ruleElement
      in subs_elements_loop (subs ruleObject) ruleElement)"

text \<open>\<^verbatim>\<open>_addRule\<close>: the rule element goes into the \<^verbatim>\<open>rules\<close> element of the root
  \<^verbatim>\<open>if len(ruleElement)\<close>.\<close>

definition addRule :: "RuleDescriptor \<Rightarrow> element \<Rightarrow> error + element" where
  "addRule ruleObject rootElement =
     (let ruleElement = rule_element ruleObject in
      if length (children_of ruleElement) \<noteq> 0
      then append_in_section ''rules'' ruleElement rootElement
      else Inr rootElement)"

subsection \<open>Axes\<close>

definition labelname_element :: "string \<times> string \<Rightarrow> element" where
  "labelname_element item =
     set_text (snd item) (set_attrib ''xml:lang'' (fst item) (new_element ''labelname''))"

definition map_element :: "rat \<times> rat \<Rightarrow> element" where
  "map_element item =
     set_attrib ''output'' (intOrFloat (snd item))
       (set_attrib ''input'' (intOrFloat (fst item)) (new_element ''map''))"

text \<open>The axis element that \<^verbatim>\<open>_addAxis\<close> builds; the label names are written in
  the order of \<^verbatim>\<open>sorted(axisObject.labelNames.items())\<close>.\<close>

definition axis_element :: "AxisDescriptor \<Rightarrow> element" where
  "axis_element axisObject =
     (let axisElement = new_element ''axis'';
          axisElement = set_attrib ''tag'' (axis_tag axisObject) axisElement;
          axisElement = set_attrib ''name'' (axis_name axisObject) axisElement;
          axisElement = set_attrib ''minimum'' (intOrFloat (axis_minimum axisObject)) axisElement;
          axisElement = set_attrib ''maximum'' (intOrFloat (axis_maximum axisObject)) axisElement;
          axisElement = set_attrib ''default'' (intOrFloat (axis_default axisObject)) axisElement;
          axisElement = (if axis_hidden axisObject
                         then set_attrib ''hidden'' ''1'' axisElement else axisElement);
          axisElement = foldl (\<lambda>e item. append_child e (labelname_element item)) axisElement
                          (sort_key fst (axis_labelNames axisObject));
          axisElement = foldl (\<lambda>e item. append_child e (map_element item)) axisElement
                          (axis_map axisObject)
      in axisElement)"

text \<open>\<^verbatim>\<open>_addAxis\<close>: the axis element goes into the \<^verbatim>\<open>axes\<close> element of the root.\<close>

definition addAxis :: "AxisDescriptor \<Rightarrow> element \<Rightarrow> error + element" where
  "addAxis axisObject rootElement =
     append_in_section ''axes'' (axis_element axisObject) rootElement"

subsection \<open>Sources\<close>

text \<open>An element that carries only attributes, such as \<^verbatim>\<open><lib copy="1"/>\<close>.\<close>

definition flag_element :: "string \<Rightarrow> (string \<times> string) list \<Rightarrow> element" where
  "flag_element t flags = foldl (\<lambda>e kv. set_attrib (fst kv) (snd kv) e) (new_element t) flags"

definition set_optional :: "string \<Rightarrow> string option \<Rightarrow> element \<Rightarrow> element" where
  "set_optional k v e = (case v of Some s \<Rightarrow> set_attrib k s e | None \<Rightarrow> e)"

definition muted_glyph_element :: "string \<Rightarrow> element" where
  "muted_glyph_element name = flag_element ''glyph'' [(''name'', name), (''mute'', ''1'')]"

text \<open>
  The source element that \<^verbatim>\<open>_addSource\<close> builds, and the source object as the call
  leaves it.  A name that starts with \<^verbatim>\<open>temp_master\<close> is not written.  The last
  statements build the location element and assign the validated location to
  \<^verbatim>\<open>sourceObject.location\<close>.
\<close>

definition source_element ::
  "DesignSpaceDocument \<Rightarrow> SourceDescriptor \<Rightarrow> error + (element \<times> SourceDescriptor)" where
  "source_element self sourceObject =
     (let sourceElement = new_element ''source'';
          sourceElement = set_optional ''filename'' (src_filename sourceObject) sourceElement;
          sourceElement =
            (case src_name sourceObject of
               Some n \<Rightarrow>
                 if take (length ''temp_master'') n \<noteq> ''temp_master''
                 then set_attrib ''name'' n sourceElement else sourceElement
             | None \<Rightarrow> sourceElement);
          sourceElement = set_optional ''familyname'' (src_familyName sourceObject) sourceElement;
          sourceElement = set_optional ''stylename'' (src_styleName sourceObject) sourceElement;
          sourceElement = set_optional ''layer'' (src_layerName sourceObject) sourceElement;
          sourceElement =
            (if src_copyLib sourceObject
             then append_child sourceElement (flag_element ''lib'' [(''copy'', ''1'')])
             else sourceElement);
          sourceElement =
            (if src_copyGroups sourceObject
             then append_child sourceElement (flag_element ''groups'' [(''copy'', ''1'')])
             else sourceElement);
          sourceElement =
            (if src_copyFeatures sourceObject
             then append_child sourceElement (flag_element ''features'' [(''copy'', ''1'')])
             else sourceElement);
          sourceElement =
            (if src_copyInfo sourceObject \<or> src_muteInfo sourceObject
             then append_child sourceElement
                    (flag_element ''info''
                       ((if src_copyInfo sourceObject then [(''copy'', ''1'')] else [])
                        @ (if src_muteInfo sourceObject then [(''mute'', ''1'')] else [])))
             else sourceElement);
          sourceElement =
            (if src_muteKerning sourceObject
             then append_child sourceElement (flag_element ''kerning'' [(''mute'', ''1'')])
             else sourceElement);
          sourceElement =
            foldl (\<lambda>e name. append_child e (muted_glyph_element name)) sourceElement
              (src_mutedGlyphNames sourceObject)
      in case makeLocationElement self (src_location sourceObject) None of
           Inl e \<Rightarrow> Inl e
         | Inr (locationElement, validatedLocation) \<Rightarrow>
             Inr (append_child sourceElement locationElement,
                  sourceObject\<lparr>src_location := stored validatedLocation\<rparr>))"

text \<open>\<^verbatim>\<open>_addSource\<close>: the source element goes into the \<^verbatim>\<open>sources\<close> element of the
  root.  The result is the root and the source object as the call leaves them.\<close>

definition addSource ::
  "DesignSpaceDocument \<Rightarrow> SourceDescriptor \<Rightarrow> element \<Rightarrow> error + (element \<times> SourceDescriptor)" where
  "addSource self sourceObject rootElement =
     (case source_element self sourceObject of
        Inl e \<Rightarrow> Inl e
      | Inr (sourceElement, sourceObject') \<Rightarrow>
          (case append_in_section ''sources'' sourceElement rootElement of
             Inl e \<Rightarrow> Inl e
           | Inr rootElement' \<Rightarrow> Inr (rootElement', sourceObject')))"

subsection \<open>Instances\<close>

text \<open>
  The location element of an optional location, as the writer builds it under the guard
  \<^verbatim>\<open>is not None\<close>: nothing is built and nothing is assigned for \<^verbatim>\<open>None\<close>.  The
  result is the list of the elements to append (none or one) and the location to store.
\<close>

definition optional_location ::
  "DesignSpaceDocument \<Rightarrow> location option \<Rightarrow> element list \<times> location option" where
  "optional_location self loc =
     (case makeLocationElement self loc None of
        Inl e \<Rightarrow> ([], loc)
      | Inr (locationElement, validatedLocation) \<Rightarrow>
          ([locationElement], stored validatedLocation))"

text \<open>The entry after an assignment that is made only for a value that is not
  \<^verbatim>\<open>None\<close>.\<close>

fun entry_store :: "'a entry \<Rightarrow> 'a option \<Rightarrow> 'a entry" where
  "entry_store old None = old"
| "entry_store old (Some v) = Present (Some v)"

text \<open>One \<^verbatim>\<open>master\<close> element of \<^verbatim>\<open>_writeGlyphElement\<close>, and the master dict after it;
  the location is read with \<^verbatim>\<open>m.get('location')\<close>.\<close>

definition master_element ::
  "DesignSpaceDocument \<Rightarrow> glyphMaster \<Rightarrow> element \<times> glyphMaster" where
  "master_element self m =
     (let masterElement = new_element ''master'';
          masterElement = set_optional ''glyphname'' (gm_glyphName m) masterElement;
          masterElement = set_optional ''source'' (gm_font m) masterElement;
          (locationElements, loc) = optional_location self (entry_get (gm_location m))
      in (foldl append_child masterElement locationElements,
          m\<lparr>gm_location := entry_store (gm_location m) loc\<rparr>))"

fun masters_loop ::
  "DesignSpaceDocument \<Rightarrow> glyphMaster list \<Rightarrow> element \<Rightarrow> element \<times> glyphMaster list" where
  "masters_loop self [] mastersElement = (mastersElement, [])"
| "masters_loop self (m # rest) mastersElement =
     (let (masterElement, m') = master_element self m;
          (mastersElement', rest') = masters_loop self rest (append_child mastersElement masterElement)
      in (mastersElement', m' # rest'))"

definition join_spaces :: "string list \<Rightarrow> string" where
  "join_spaces xs = (case xs of [] \<Rightarrow> [] | x # rest \<Rightarrow> foldl (\<lambda>s y. s @ '' '' @ y) x rest)"

text \<open>\<^verbatim>\<open>_writeGlyphElement\<close>: the glyph element and the glyph data after the call.\<close>

definition writeGlyphElement ::
  "DesignSpaceDocument \<Rightarrow> string \<Rightarrow> glyphData \<Rightarrow> element \<times> glyphData" where
  "writeGlyphElement self glyphName data =
     (let glyphElement = new_element ''glyph'';
          glyphElement = (if gd_mute data = Some True
                          then set_attrib ''mute'' ''1'' glyphElement else glyphElement);
          glyphElement = (case gd_unicodes data of
                            Some us \<Rightarrow> set_attrib ''unicode'' (join_spaces (map hex us)) glyphElement
                          | None \<Rightarrow> glyphElement);
          (locationElements, loc) =
            optional_location self (entry_get (gd_instanceLocation data));
          instanceLocation = entry_store (gd_instanceLocation data) loc;
          glyphElement = foldl append_child glyphElement locationElements;
          glyphElement = set_attrib ''name'' glyphName glyphElement;
          glyphElement = (case gd_note data of
                            Some note \<Rightarrow> append_child glyphElement (set_text note (new_element ''note''))
                          | None \<Rightarrow> glyphElement)
      in case entry_get (gd_masters data) of
           None \<Rightarrow> (glyphElement, data\<lparr>gd_instanceLocation := instanceLocation\<rparr>)
         | Some masters \<Rightarrow>
             (let (mastersElement, masters') = masters_loop self masters (new_element ''masters'')
              in (append_child glyphElement mastersElement,
                  data\<lparr>gd_instanceLocation := instanceLocation,
                       gd_masters := Present (Some masters')\<rparr>)))"

text \<open>The localised names of one kind: sorted language codes, \<^verbatim>\<open>en\<close> left out.\<close>

definition localised_elements :: "string \<Rightarrow> (string \<times> string) list \<Rightarrow> element list" where
  "localised_elements t names =
     map (\<lambda>item. set_text (snd item) (set_attrib ''xml:lang'' (fst item) (new_element t)))
       (filter (\<lambda>item. fst item \<noteq> ''en'') (sort_key fst names))"

text \<open>
  The instance element that \<^verbatim>\<open>_addInstance\<close> builds, and the instance object as the
  call leaves it.  The glyph elements are written in the order of
  \<^verbatim>\<open>sorted(instanceObject.glyphs.items())\<close>; each glyph dict is changed in place, so the
  glyph dict of the instance keeps its order.
\<close>

definition instance_element ::
  "DesignSpaceDocument \<Rightarrow> InstanceDescriptor \<Rightarrow> element \<times> InstanceDescriptor" where
  "instance_element self instanceObject =
     (let instanceElement = new_element ''instance'';
          instanceElement = set_optional ''name'' (inst_name instanceObject) instanceElement;
          instanceElement = set_optional ''familyname'' (inst_familyName instanceObject) instanceElement;
          instanceElement = set_optional ''stylename'' (inst_styleName instanceObject) instanceElement;
          instanceElement = foldl append_child instanceElement
            (localised_elements ''stylename'' (inst_localisedStyleName instanceObject));
          instanceElement = foldl append_child instanceElement
            (localised_elements ''familyname'' (inst_localisedFamilyName instanceObject));
          instanceElement = foldl append_child instanceElement
            (localised_elements ''stylemapstylename'' (inst_localisedStyleMapStyleName instanceObject));
          instanceElement = foldl append_child instanceElement
            (localised_elements ''stylemapfamilyname'' (inst_localisedStyleMapFamilyName instanceObject));
          (locationElements, loc) = optional_location self (inst_location instanceObject);
          instanceElement = foldl append_child instanceElement locationElements;
          instanceElement = set_optional ''filename'' (inst_filename instanceObject) instanceElement;
          instanceElement = set_optional ''postscriptfontname''
            (inst_postScriptFontName instanceObject) instanceElement;
          instanceElement = set_optional ''stylemapfamilyname''
            (inst_styleMapFamilyName instanceObject) instanceElement;
          instanceElement = set_optional ''stylemapstylename''
            (inst_styleMapStyleName instanceObject) instanceElement;
          instanceElement =
            (if inst_glyphs instanceObject \<noteq> []
             then append_child instanceElement
                    (foldl append_child (new_element ''glyphs'')
                       (map (\<lambda>item. fst (writeGlyphElement self (fst item) (snd item)))
                          (sort_key fst (inst_glyphs instanceObject))))
             else instanceElement);
          glyphs' = map (\<lambda>item. (fst item, snd (writeGlyphElement self (fst item) (snd item))))
                      (inst_glyphs instanceObject);
          instanceElement = (if inst_kerning instanceObject
                             then append_child instanceElement (new_element ''kerning'')
                             else instanceElement);
          instanceElement = (if inst_info instanceObject
                             then append_child instanceElement (new_element ''info'')
                             else instanceElement);
          instanceElement =
            (case inst_lib instanceObject of
               Some plist \<Rightarrow> append_child instanceElement (append_child (new_element ''lib'') plist)
             | None \<Rightarrow> instanceElement)
      in (instanceElement, instanceObject\<lparr>inst_location := loc, inst_glyphs := glyphs'\<rparr>))"

text \<open>\<^verbatim>\<open>_addInstance\<close>: the instance element goes into the \<^verbatim>\<open>instances\<close> element of
  the root.  The result is the root and the instance object as the call leaves them.\<close>

definition addInstance ::
  "DesignSpaceDocument \<Rightarrow> InstanceDescriptor \<Rightarrow> element \<Rightarrow> error + (element \<times> InstanceDescriptor)" where
  "addInstance self instanceObject rootElement =
     (case instance_element self instanceObject of
        (instanceElement, instanceObject') \<Rightarrow>
          (case append_in_section ''instances'' instanceElement rootElement of
             Inl e \<Rightarrow> Inl e
           | Inr rootElement' \<Rightarrow> Inr (rootElement', instanceObject')))"

subsection \<open>The whole document\<close>

fun addAxes_loop :: "AxisDescriptor list \<Rightarrow> element \<Rightarrow> error + element" where
  "addAxes_loop [] rootElement = Inr rootElement"
| "addAxes_loop (axisObject # rest) rootElement =
     (case addAxis axisObject rootElement of
        Inl e \<Rightarrow> Inl e
      | Inr rootElement' \<Rightarrow> addAxes_loop rest rootElement')"

fun addRules_loop :: "RuleDescriptor list \<Rightarrow> element \<Rightarrow> error + element" where
  "addRules_loop [] rootElement = Inr rootElement"
| "addRules_loop (ruleObject # rest) rootElement =
     (case addRule ruleObject rootElement of
        Inl e \<Rightarrow> Inl e
      | Inr rootElement' \<Rightarrow> addRules_loop rest rootElement')"

fun addSources_loop ::
  "DesignSpaceDocument \<Rightarrow> SourceDescriptor list \<Rightarrow> element
     \<Rightarrow> error + (element \<times> SourceDescriptor list)" where
  "addSources_loop self [] rootElement = Inr (rootElement, [])"
| "addSources_loop self (sourceObject # rest) rootElement =
     (case addSource self sourceObject rootElement of
        Inl e \<Rightarrow> Inl e
      | Inr (rootElement', sourceObject') \<Rightarrow>
          (case addSources_loop self rest rootElement' of
             Inl e \<Rightarrow> Inl e
           | Inr (rootElement'', rest') \<Rightarrow> Inr (rootElement'', sourceObject' # rest')))"

fun addInstances_loop ::
  "DesignSpaceDocument \<Rightarrow> InstanceDescriptor list \<Rightarrow> element
     \<Rightarrow> error + (element \<times> InstanceDescriptor list)" where
  "addInstances_loop self [] rootElement = Inr (rootElement, [])"
| "addInstances_loop self (instanceObject # rest) rootElement =
     (case addInstance self instanceObject rootElement of
        Inl e \<Rightarrow> Inl e
      | Inr (rootElement', instanceObject') \<Rightarrow>
          (case addInstances_loop self rest rootElement' of
             Inl e \<Rightarrow> Inl e
           | Inr (rootElement'', rest') \<Rightarrow> Inr (rootElement'', instanceObject' # rest')))"

definition section_for :: "'a list \<Rightarrow> string \<Rightarrow> element \<Rightarrow> element" where
  "section_for xs t rootElement =
     (if xs \<noteq> [] then append_child rootElement (new_element t) else rootElement)"

text \<open>
  \<^verbatim>\<open>BaseDocWriter.write\<close>, up to the element tree that is then indented and
  serialised to the file: the root element and the document object as the call leaves
  them.  The axes of the document do not change while it is written.
\<close>

definition writer_write :: "DesignSpaceDocument \<Rightarrow> error + (element \<times> DesignSpaceDocument)" where
  "writer_write documentObject =
     (let rootElement = Element ''designspace'' [(''format'', ''4.0'')] None [];
          rootElement = section_for (axes documentObject) ''axes'' rootElement
      in case addAxes_loop (axes documentObject) rootElement of
           Inl e \<Rightarrow> Inl e
         | Inr rootElement \<Rightarrow>
         (case addRules_loop (rules documentObject)
                 (section_for (rules documentObject) ''rules'' rootElement) of
            Inl e \<Rightarrow> Inl e
          | Inr rootElement \<Rightarrow>
          (case addSources_loop documentObject (sources documentObject)
                  (section_for (sources documentObject) ''sources'' rootElement) of
             Inl e \<Rightarrow> Inl e
           | Inr (rootElement, sources') \<Rightarrow>
           (case addInstances_loop documentObject (instances documentObject)
                   (section_for (instances documentObject) ''instances'' rootElement) of
              Inl e \<Rightarrow> Inl e
            | Inr (rootElement, instances') \<Rightarrow>
                Inr (case doc_lib documentObject of
                       Some plist \<Rightarrow>
                         append_child rootElement (append_child (new_element ''lib'') plist)
                     | None \<Rightarrow> rootElement,
                     documentObject\<lparr>sources := sources', instances := instances'\<rparr>)))))"

text \<open>
  \<^verbatim>\<open>updatePaths\<close>, for one descriptor: when the descriptor has a path and the document
  has one, the file name becomes the path relative to the document (the identity test
  \<^verbatim>\<open>descriptor.filename is not expectedFilename\<close> holds for the freshly computed
  string).  \<open>relative\<close> stands for \<^verbatim>\<open>_posixRelativePath\<close>, which rests on
  \<^verbatim>\<open>os.path\<close>: it takes the document path and the other path.
\<close>

definition updated_filename ::
  "(string \<Rightarrow> string \<Rightarrow> string) \<Rightarrow> string option \<Rightarrow> string option \<Rightarrow> string option
     \<Rightarrow> string option" where
  "updated_filename relative docPath path filename =
     (case (path, docPath) of
        (Some p, Some d) \<Rightarrow> Some (relative d p)
      | _ \<Rightarrow> filename)"

definition updatePaths ::
  "(string \<Rightarrow> string \<Rightarrow> string) \<Rightarrow> DesignSpaceDocument \<Rightarrow> DesignSpaceDocument" where
  "updatePaths relative self =
     self\<lparr>sources :=
            map (\<lambda>d. d\<lparr>src_filename :=
                          updated_filename relative (doc_path self) (src_path d) (src_filename d)\<rparr>)
              (sources self),
          instances :=
            map (\<lambda>d. d\<lparr>inst_filename :=
                          updated_filename relative (doc_path self) (inst_path d) (inst_filename d)\<rparr>)
              (instances self)\<rparr>"

text \<open>
  \<^verbatim>\<open>DesignSpaceDocument.write(path)\<close>; \<open>basename\<close> stands for \<^verbatim>\<open>os.path.basename\<close>.
\<close>

definition document_write ::
  "(string \<Rightarrow> string) \<Rightarrow> (string \<Rightarrow> string \<Rightarrow> string) \<Rightarrow> string \<Rightarrow> DesignSpaceDocument
     \<Rightarrow> error + (element \<times> DesignSpaceDocument)" where
  "document_write basename relative path self =
     writer_write
       (updatePaths relative (self\<lparr>doc_path := Some path, doc_filename := Some (basename path)\<rparr>))"

section \<open>An auxiliary view of the normalisation loop\<close>

text \<open>
  The entry of one key \<open>k\<close> while \<^verbatim>\<open>normalizeLocation\<close> runs over the axes: \<open>r\<close> is
  the entry before the loop, the result is the entry after it.  Used in proofs only.
\<close>

fun loop_at :: "AxisDescriptor list \<Rightarrow> location \<Rightarrow> string \<Rightarrow> rat option \<Rightarrow> rat option" where
  "loop_at [] location k r = r"
| "loop_at (axis # rest) location k r =
     loop_at rest location k
       (if axis_name axis = k
        then (case location k of None \<Rightarrow> r | Some lv \<Rightarrow> Some (normalizeValue axis lv))
        else r)"

section \<open>Notions of the specification\<close>

text \<open>
  The substitution the specification describes for one name under one rule: the second
  element of the first pair of \<open>sbs\<close> whose first element is the name, and the name
  itself when there is no such pair.
\<close>

definition substitute :: "(string \<times> string) list \<Rightarrow> string \<Rightarrow> string" where
  "substitute sbs name = (case find (\<lambda>p. fst p = name) sbs of Some p \<Rightarrow> snd p | None \<Rightarrow> name)"

text \<open>
  What the specification asks of one condition at a number \<open>v\<close>: each bound that is
  given holds, a bound that is not given asks nothing.  A condition set holds at a
  location when every condition finds a number under its axis name and holds there.
\<close>

definition condition_holds :: "condition \<Rightarrow> rat \<Rightarrow> bool" where
  "condition_holds cd v =
     ((case cond_minimum cd of None \<Rightarrow> True | Some mn \<Rightarrow> mn \<le> v)
      \<and> (case cond_maximum cd of None \<Rightarrow> True | Some mx \<Rightarrow> v \<le> mx))"

definition conditions_hold :: "condition list \<Rightarrow> location \<Rightarrow> bool" where
  "conditions_hold conditions location =
     list_all (\<lambda>cd. case location (cond_name cd) of
                       Some (Scalar v) \<Rightarrow> condition_holds cd v
                     | _ \<Rightarrow> False) conditions"

text \<open>A condition that has at least one bound, at a location that stores a number
  under the condition's axis name.\<close>

definition bounded_at_scalar :: "location \<Rightarrow> condition \<Rightarrow> bool" where
  "bounded_at_scalar location cd =
     ((case location (cond_name cd) of Some (Scalar v) \<Rightarrow> True | _ \<Rightarrow> False)
      \<and> (cond_minimum cd \<noteq> None \<or> cond_maximum cd \<noteq> None))"

text \<open>
  A condition that has at least one bound, and the \<^verbatim>\<open>conditionset\<close> element made of
  the conditions of a condition set that have one.
\<close>

definition has_bound :: "condition \<Rightarrow> bool" where
  "has_bound cond \<longleftrightarrow> cond_minimum cond \<noteq> None \<or> cond_maximum cond \<noteq> None"

definition conditionset_element :: "condition list \<Rightarrow> element" where
  "conditionset_element conditions =
     Element ''conditionset'' [] None (map condition_element (filter has_bound conditions))"

text \<open>
  The validated form of a location: for every declared axis name the value the location
  has under it, or the default of the axis when the location has none (of the last axis
  of that name, should several share it); no other key.
\<close>

definition default_of :: "DesignSpaceDocument \<Rightarrow> string \<Rightarrow> rat option" where
  "default_of self k = map_option axis_default (find (\<lambda>a. axis_name a = k) (rev (axes self)))"

definition validated :: "DesignSpaceDocument \<Rightarrow> location \<Rightarrow> location" where
  "validated self location =
     (\<lambda>k. case default_of self k of
            None \<Rightarrow> None
          | Some d \<Rightarrow> Some (case location k of Some v \<Rightarrow> v | None \<Rightarrow> Scalar d))"

text \<open>
  Reading a printed number back: the value of a decimal digit, and the natural number
  that a string of decimal digits denotes.  A number is an integer when it equals its
  floor; \<open>sign_prefix\<close> is the minus sign of a negative number.
\<close>

definition digit_value :: "char \<Rightarrow> nat" where
  "digit_value c = length (takeWhile (\<lambda>x. x \<noteq> c) ''0123456789'')"

definition decimal_value :: "string \<Rightarrow> nat" where
  "decimal_value s = foldl (\<lambda>n c. 10 * n + digit_value c) 0 s"

definition is_integer :: "rat \<Rightarrow> bool" where
  "is_integer num \<longleftrightarrow> of_int \<lfloor>num\<rfloor> = num"

definition sign_prefix :: "rat \<Rightarrow> string" where
  "sign_prefix num = (if num < 0 then ''-'' else '''')"

text \<open>
  The first child of the root with a given tag, as \<^verbatim>\<open>findall('.tag')[0]\<close> finds it,
  and the rule elements that reach the \<^verbatim>\<open>rules\<close> element.
\<close>

definition section_of :: "string \<Rightarrow> element \<Rightarrow> element option" where
  "section_of t rootElement = find (\<lambda>c. tag_of c = t) (children_of rootElement)"

definition written_rules :: "RuleDescriptor list \<Rightarrow> element list" where
  "written_rules rs = map rule_element (filter (\<lambda>r. children_of (rule_element r) \<noteq> []) rs)"

text \<open>
  A glyph override that lacks one of the keys \<^verbatim>\<open>instanceLocation\<close> and \<^verbatim>\<open>masters\<close>,
  and a document that has an instance with such a glyph override.
\<close>

definition lacks_key :: "glyphData \<Rightarrow> bool" where
  "lacks_key glyphData \<longleftrightarrow>
     gd_instanceLocation glyphData = Absent \<or> gd_masters glyphData = Absent"

definition has_incomplete_glyph :: "DesignSpaceDocument \<Rightarrow> bool" where
  "has_incomplete_glyph self \<longleftrightarrow>
     list_ex (\<lambda>i. list_ex (\<lambda>g. lacks_key (snd g)) (inst_glyphs i)) (instances self)"

text \<open>
  The steps of \<^verbatim>\<open>normalize\<close> that fail, in the order in which the code takes them,
  each with the exception it raises.  Passing \<^verbatim>\<open>None\<close> to \<^verbatim>\<open>normalizeLocation\<close> is a
  \<^verbatim>\<open>TypeError\<close> when the document has an axis to look up in it; subscripting an absent
  key is a \<^verbatim>\<open>KeyError\<close>; iterating over \<^verbatim>\<open>None\<close> for the masters is a \<^verbatim>\<open>TypeError\<close>.
\<close>

definition location_failures :: "DesignSpaceDocument \<Rightarrow> location option \<Rightarrow> error list" where
  "location_failures self loc = (if loc = None \<and> axes self \<noteq> [] then [TypeError] else [])"

definition entry_failures :: "DesignSpaceDocument \<Rightarrow> location entry \<Rightarrow> error list" where
  "entry_failures self e =
     (case e of Absent \<Rightarrow> [KeyError] | Present loc \<Rightarrow> location_failures self loc)"

definition masters_failures :: "DesignSpaceDocument \<Rightarrow> glyphMaster list entry \<Rightarrow> error list" where
  "masters_failures self e =
     (case e of
        Absent \<Rightarrow> [KeyError]
      | Present None \<Rightarrow> [TypeError]
      | Present (Some masters) \<Rightarrow> concat (map (\<lambda>m. entry_failures self (gm_location m)) masters))"

definition glyph_failures :: "DesignSpaceDocument \<Rightarrow> glyphData \<Rightarrow> error list" where
  "glyph_failures self glyphData =
     entry_failures self (gd_instanceLocation glyphData)
     @ masters_failures self (gd_masters glyphData)"

definition instance_failures :: "DesignSpaceDocument \<Rightarrow> InstanceDescriptor \<Rightarrow> error list" where
  "instance_failures self item =
     concat (map (\<lambda>g. glyph_failures self (snd g)) (inst_glyphs item))
     @ location_failures self (inst_location item)"

definition failures :: "DesignSpaceDocument \<Rightarrow> error list" where
  "failures self =
     concat (map (\<lambda>item. location_failures self (src_location item)) (sources self))
     @ concat (map (instance_failures self) (instances self))"

text \<open>A result \<open>r\<close> that raises the first exception of a list, and returns when the
  list is empty.\<close>

definition raises_first :: "error list \<Rightarrow> error + 'a \<Rightarrow> bool" where
  "raises_first fs r \<longleftrightarrow> (case fs of [] \<Rightarrow> \<not> isl r | e # rest \<Rightarrow> r = Inl e)"

section \<open>Example documents\<close>

text \<open>Concrete documents on which the theorems below are instantiated.\<close>

definition weight_axis :: AxisDescriptor where
  "weight_axis = \<lparr>axis_tag = ''wght'', axis_name = ''weight'', axis_labelNames = [],
     axis_minimum = 0, axis_maximum = 1000, axis_default = 400, axis_hidden = False,
     axis_map = [(0, 100), (1, 700)]\<rparr>"

definition empty_document :: DesignSpaceDocument where
  "empty_document = \<lparr>doc_path = None, doc_filename = None, sources = [], instances = [],
     axes = [], rules = [], doc_default = None, defaultLoc = None, doc_lib = None\<rparr>"

definition weight_document :: DesignSpaceDocument where
  "weight_document = empty_document\<lparr>axes := [weight_axis]\<rparr>"

definition weight_rule :: RuleDescriptor where
  "weight_rule = \<lparr>rule_name = Some ''weight.alt'',
     conditionSets = [[\<lparr>cond_name = ''weight'', cond_minimum = Some 250, cond_maximum = Some 750\<rparr>]],
     subs = [(''a'', ''a.alt'')]\<rparr>"

definition unbounded_condition :: condition where
  "unbounded_condition = \<lparr>cond_name = ''weight'', cond_minimum = None, cond_maximum = None\<rparr>"

definition light_source :: SourceDescriptor where
  "light_source = \<lparr>src_filename = Some ''light.ufo'', src_path = None, src_name = Some ''light'',
     src_location = Some [''weight'' \<mapsto> Scalar 0], src_layerName = None, src_copyLib = False,
     src_copyInfo = True, src_copyGroups = False, src_copyFeatures = False,
     src_muteKerning = False, src_muteInfo = False, src_mutedGlyphNames = [],
     src_familyName = None, src_styleName = None\<rparr>"

definition regular_source :: SourceDescriptor where
  "regular_source = light_source\<lparr>src_filename := Some ''regular.ufo'', src_name := Some ''regular'',
     src_location := Some [''weight'' \<mapsto> Scalar 400], src_copyInfo := False\<rparr>"

definition muted_glyph :: glyphData where
  "muted_glyph = \<lparr>gd_mute = Some True, gd_unicodes = None, gd_note = None,
     gd_instanceLocation = Absent, gd_masters = Absent\<rparr>"

definition bold_instance :: InstanceDescriptor where
  "bold_instance = \<lparr>inst_filename = Some ''bold.ufo'', inst_path = None, inst_name = Some ''bold'',
     inst_location = Some [''weight'' \<mapsto> Scalar 700, ''width'' \<mapsto> Scalar 5],
     inst_familyName = Some ''Example'', inst_styleName = Some ''Bold'',
     inst_postScriptFontName = None, inst_styleMapFamilyName = None,
     inst_styleMapStyleName = None, inst_localisedStyleName = [],
     inst_localisedFamilyName = [], inst_localisedStyleMapStyleName = [],
     inst_localisedStyleMapFamilyName = [], inst_glyphs = [],
     inst_kerning = True, inst_info = True, inst_lib = None\<rparr>"

definition muting_document :: DesignSpaceDocument where
  "muting_document = weight_document\<lparr>sources := [regular_source],
     instances := [bold_instance\<lparr>inst_glyphs := [(''a'', muted_glyph)]\<rparr>]\<rparr>"

definition mixed_rule :: RuleDescriptor where
  "mixed_rule = \<lparr>rule_name = Some ''mixed'',
     conditionSets = [[unbounded_condition,
                       \<lparr>cond_name = ''weight'', cond_minimum = Some 250, cond_maximum = None\<rparr>],
                      [unbounded_condition]],
     subs = [(''a'', ''a.alt'')]\<rparr>"

definition bold_document :: DesignSpaceDocument where
  "bold_document = weight_document\<lparr>sources := [regular_source], instances := [bold_instance]\<rparr>"

text \<open>
  Variants of the muting document in which a location is \<^verbatim>\<open>None\<close>: that of the source,
  that of the instance, and the \<^verbatim>\<open>instanceLocation\<close> of the glyph override.  The last
  document has a single source, at the default of its only axis, and was not read from
  a file.
\<close>

definition unlocated_source_document :: DesignSpaceDocument where
  "unlocated_source_document =
     muting_document\<lparr>sources := [regular_source\<lparr>src_location := None\<rparr>]\<rparr>"

definition unlocated_instance_document :: DesignSpaceDocument where
  "unlocated_instance_document =
     muting_document\<lparr>instances :=
       [bold_instance\<lparr>inst_glyphs := [(''a'', muted_glyph)], inst_location := None\<rparr>]\<rparr>"

definition unlocated_glyph_document :: DesignSpaceDocument where
  "unlocated_glyph_document =
     muting_document\<lparr>instances :=
       [bold_instance\<lparr>inst_glyphs :=
          [(''a'', muted_glyph\<lparr>gd_instanceLocation := Present None\<rparr>)]\<rparr>]\<rparr>"

definition default_only_document :: DesignSpaceDocument where
  "default_only_document = weight_document\<lparr>sources := [regular_source]\<rparr>"

section \<open>Properties of \<open>normalizeLocation\<close>\<close>

lemma normalizeLocation_loop_absent:
  "location k = None \<Longrightarrow> normalizeLocation_loop as location new k = new k"
  by (induction as arbitrary: new) (auto split: option.splits)

lemma normalizeLocation_loop_undeclared:
  "k \<notin> axis_name ` set as \<Longrightarrow> normalizeLocation_loop as location new k = new k"
  by (induction as arbitrary: new) (auto split: option.splits)

lemma normalizeLocation_loop_declared:
  assumes "a \<in> set as"
    and "\<forall>b\<in>set as. axis_name b = axis_name a \<longrightarrow> b = a"
    and "location (axis_name a) = Some lv"
  shows "normalizeLocation_loop as location new (axis_name a) = Some (normalizeValue a lv)"
  using assms
proof (induction as arbitrary: new)
  case Nil
  then show ?case by simp
next
  case (Cons x xs)
  show ?case
  proof (cases "a \<in> set xs")
    case True
    with Cons.prems have "normalizeLocation_loop xs location new' (axis_name a)
        = Some (normalizeValue a lv)" for new'
      by (intro Cons.IH) auto
    then show ?thesis by (simp split: option.splits)
  next
    case False
    with Cons.prems have xa: "x = a" by simp
    from False Cons.prems have "axis_name a \<notin> axis_name ` set xs" by auto
    then have "normalizeLocation_loop xs location new' (axis_name a) = new' (axis_name a)"
      for new'
      by (rule normalizeLocation_loop_undeclared)
    with xa Cons.prems(3) show ?thesis by simp
  qed
qed

lemma dom_normalizeLocation_loop:
  "dom (normalizeLocation_loop as location new)
     = dom new \<union> (axis_name ` set as \<inter> dom location)"
  by (induction as arbitrary: new) (auto split: option.splits)

lemma normalizeValue_below_range:
  assumes "first_component lv < axis_default a" "axis_default a \<noteq> axis_minimum a"
  shows "- 1 \<le> normalizeValue a lv \<and> normalizeValue a lv \<le> 0"
proof (cases "axis_minimum a < axis_default a")
  case True
  then have pos: "0 < axis_default a - axis_minimum a" by simp
  have "- (axis_default a - axis_minimum a) \<le> max (first_component lv) (axis_minimum a) - axis_default a"
    by simp
  moreover have "max (first_component lv) (axis_minimum a) - axis_default a \<le> 0"
    using assms True by simp
  ultimately show ?thesis
    using assms pos
    by (simp add: normalizeValue_def Let_def pos_le_divide_eq pos_divide_le_eq)
next
  case False
  with assms have gt: "axis_default a < axis_minimum a" by simp
  with assms have "max (first_component lv) (axis_minimum a) = axis_minimum a" by simp
  moreover have "(axis_minimum a - axis_default a) / (axis_default a - axis_minimum a) = - 1"
    using gt by (simp add: divide_eq_minus_1_iff)
  ultimately show ?thesis
    using assms by (simp add: normalizeValue_def Let_def)
qed

lemma normalizeValue_above_range:
  assumes "axis_default a < first_component lv" "axis_default a \<noteq> axis_maximum a"
  shows "0 \<le> normalizeValue a lv \<and> normalizeValue a lv \<le> 1"
proof (cases "axis_default a < axis_maximum a")
  case True
  then have pos: "0 < axis_maximum a - axis_default a" by simp
  have "min (first_component lv) (axis_maximum a) - axis_default a \<le> axis_maximum a - axis_default a"
    by simp
  moreover have "0 \<le> min (first_component lv) (axis_maximum a) - axis_default a"
    using assms True by simp
  ultimately show ?thesis
    using assms pos
    by (simp add: normalizeValue_def Let_def pos_le_divide_eq pos_divide_le_eq)
next
  case False
  with assms have gt: "axis_maximum a < axis_default a" by simp
  with assms have "min (first_component lv) (axis_maximum a) = axis_maximum a" by simp
  then show ?thesis
    using assms gt by (simp add: normalizeValue_def Let_def)
qed

text \<open>
  Claim C1.  Let \<open>a\<close> be a declared axis, the only declared axis of its name, whose
  name is a key of the location, and let \<open>v\<close> be the value stored there, or its
  first component when the value is an anisotropic pair (the pair and the number
  \<open>v\<close> give the same result).  Then \<^verbatim>\<open>normalizeLocation\<close> stores under that name:
  \<open>0\<close> when \<open>v\<close> is the default; when \<open>v\<close> is below the default, \<open>0\<close> if the
  default equals the minimum, and otherwise \<open>(max v minimum - default) / (default - minimum)\<close>,
  a number of \<open>[-1, 0]\<close>, where \<open>max v minimum\<close> is \<open>v\<close> clamped to
  \<open>[minimum, default]\<close> on an axis with \<open>minimum \<le> default\<close>; when \<open>v\<close> is above
  the default, \<open>0\<close> if the default equals the maximum, and otherwise
  \<open>(clamp v default maximum - default) / (maximum - default)\<close>, a number of \<open>[0, 1]\<close>.
\<close>

theorem normalizeLocation_axis_value:
  assumes "a \<in> set (axes self)"
    and "\<forall>b\<in>set (axes self). axis_name b = axis_name a \<longrightarrow> b = a"
    and "location (axis_name a) = Some lv"
  shows "\<exists>r. normalizeLocation self location (axis_name a) = Some r
    \<and> normalizeLocation self (location(axis_name a \<mapsto> Scalar (first_component lv))) (axis_name a) = Some r
    \<and> (first_component lv = axis_default a \<longrightarrow> r = 0)
    \<and> (first_component lv < axis_default a \<longrightarrow>
         (if axis_default a = axis_minimum a then r = 0
          else r = (max (first_component lv) (axis_minimum a) - axis_default a)
                     / (axis_default a - axis_minimum a)
             \<and> - 1 \<le> r \<and> r \<le> 0
             \<and> (axis_minimum a \<le> axis_default a \<longrightarrow>
                  max (first_component lv) (axis_minimum a)
                    = clamp (first_component lv) (axis_minimum a) (axis_default a))))
    \<and> (axis_default a < first_component lv \<longrightarrow>
         (if axis_default a = axis_maximum a then r = 0
          else r = (clamp (first_component lv) (axis_default a) (axis_maximum a) - axis_default a)
                     / (axis_maximum a - axis_default a)
             \<and> 0 \<le> r \<and> r \<le> 1))"
proof -
  define r where "r = normalizeValue a lv"
  have 1: "normalizeLocation self location (axis_name a) = Some r"
    unfolding normalizeLocation_def r_def using assms by (rule normalizeLocation_loop_declared)
  have "(location(axis_name a \<mapsto> Scalar (first_component lv))) (axis_name a)
          = Some (Scalar (first_component lv))" by simp
  with assms(1,2)
  have "normalizeLocation self (location(axis_name a \<mapsto> Scalar (first_component lv))) (axis_name a)
          = Some (normalizeValue a (Scalar (first_component lv)))"
    unfolding normalizeLocation_def by (rule normalizeLocation_loop_declared)
  then have 2: "normalizeLocation self (location(axis_name a \<mapsto> Scalar (first_component lv)))
      (axis_name a) = Some r"
    by (simp add: normalizeValue_def r_def)
  have 3: "first_component lv = axis_default a \<longrightarrow> r = 0"
    by (simp add: normalizeValue_def r_def)
  have 4: "first_component lv < axis_default a \<longrightarrow>
         (if axis_default a = axis_minimum a then r = 0
          else r = (max (first_component lv) (axis_minimum a) - axis_default a)
                     / (axis_default a - axis_minimum a)
             \<and> - 1 \<le> r \<and> r \<le> 0
             \<and> (axis_minimum a \<le> axis_default a \<longrightarrow>
                  max (first_component lv) (axis_minimum a)
                    = clamp (first_component lv) (axis_minimum a) (axis_default a)))"
  proof (intro impI)
    assume lt: "first_component lv < axis_default a"
    show "if axis_default a = axis_minimum a then r = 0
          else r = (max (first_component lv) (axis_minimum a) - axis_default a)
                     / (axis_default a - axis_minimum a)
             \<and> - 1 \<le> r \<and> r \<le> 0
             \<and> (axis_minimum a \<le> axis_default a \<longrightarrow>
                  max (first_component lv) (axis_minimum a)
                    = clamp (first_component lv) (axis_minimum a) (axis_default a))"
    proof (cases "axis_default a = axis_minimum a")
      case True
      with lt show ?thesis by (simp add: normalizeValue_def r_def)
    next
      case False
      from lt False have "r = (max (first_component lv) (axis_minimum a) - axis_default a)
                     / (axis_default a - axis_minimum a)"
        by (simp add: normalizeValue_def r_def)
      moreover from lt False have "- 1 \<le> r \<and> r \<le> 0"
        unfolding r_def by (rule normalizeValue_below_range)
      moreover from lt have "axis_minimum a \<le> axis_default a \<longrightarrow>
                  max (first_component lv) (axis_minimum a)
                    = clamp (first_component lv) (axis_minimum a) (axis_default a)"
        by (simp add: clamp_def)
      ultimately show ?thesis using False by presburger
    qed
  qed
  have 5: "axis_default a < first_component lv \<longrightarrow>
         (if axis_default a = axis_maximum a then r = 0
          else r = (clamp (first_component lv) (axis_default a) (axis_maximum a) - axis_default a)
                     / (axis_maximum a - axis_default a)
             \<and> 0 \<le> r \<and> r \<le> 1)"
  proof (intro impI)
    assume gt: "axis_default a < first_component lv"
    show "if axis_default a = axis_maximum a then r = 0
          else r = (clamp (first_component lv) (axis_default a) (axis_maximum a) - axis_default a)
                     / (axis_maximum a - axis_default a)
             \<and> 0 \<le> r \<and> r \<le> 1"
    proof (cases "axis_default a = axis_maximum a")
      case True
      with gt show ?thesis by (simp add: normalizeValue_def r_def)
    next
      case False
      from gt False have "r = (clamp (first_component lv) (axis_default a) (axis_maximum a) - axis_default a)
                     / (axis_maximum a - axis_default a)"
        by (simp add: normalizeValue_def r_def clamp_def max_def)
      moreover from gt False have "0 \<le> r \<and> r \<le> 1"
        unfolding r_def by (rule normalizeValue_above_range)
      ultimately show ?thesis using False by presburger
    qed
  qed
  from 1 2 3 4 5 show ?thesis by blast
qed

theorem normalizeLocation_axis_value_witness:
  "normalizeLocation weight_document [''weight'' \<mapsto> Aniso 100 900] ''weight'' = Some (- (3 / 4))
   \<and> normalizeLocation weight_document [''weight'' \<mapsto> Scalar 100] ''weight'' = Some (- (3 / 4))"
proof -
  have 1: "weight_axis \<in> set (axes weight_document)"
    by (simp add: weight_document_def)
  have 2: "\<forall>b\<in>set (axes weight_document). axis_name b = axis_name weight_axis \<longrightarrow> b = weight_axis"
    by (simp add: weight_document_def)
  have 3: "[''weight'' \<mapsto> Aniso 100 900] (axis_name weight_axis) = Some (Aniso 100 900)"
    by (simp add: weight_axis_def)
  from normalizeLocation_axis_value[of weight_axis weight_document "[''weight'' \<mapsto> Aniso 100 900]" "Aniso 100 900", OF 1 2 3] show ?thesis
    by (auto simp: weight_axis_def)
qed

text \<open>
  Claim C5.  The keys of the result of \<^verbatim>\<open>normalizeLocation\<close> are exactly the names
  that are both the name of a declared axis and a key of the input location: an axis
  absent from the location gets no entry (no implicit \<open>0\<close>), and a key that names no
  declared axis is dropped.
\<close>

theorem normalizeLocation_keys:
  "dom (normalizeLocation self location) = axis_name ` set (axes self) \<inter> dom location"
  by (simp add: normalizeLocation_def dom_normalizeLocation_loop)

section \<open>Properties of the rule engine\<close>

lemma subs_loop_find:
  "subs_loop sbs name = map_option snd (find (\<lambda>p. fst p = name) sbs)"
  by (induction sbs name rule: subs_loop.induct) auto

lemma names_loop_map:
  "names_loop sbs glyphNames newNames = newNames @ map (substitute sbs) glyphNames"
  by (induction glyphNames arbitrary: newNames)
     (auto simp: subs_loop_find substitute_def split: option.splits)

lemma processRules_foldl:
  "\<forall>r\<in>set rs. \<exists>m. evaluateRule r location = Inr m \<Longrightarrow>
   processRules rs location names =
     Inr (foldl (\<lambda>ns r. if evaluateRule r location = Inr True
                         then map (substitute (subs r)) ns else ns) names rs)"
proof (induction rs arbitrary: names)
  case Nil
  then show ?case by simp
next
  case (Cons r rs)
  then obtain m where m: "evaluateRule r location = Inr m" by auto
  from Cons have IH: "processRules rs location ns =
     Inr (foldl (\<lambda>ns r. if evaluateRule r location = Inr True
                         then map (substitute (subs r)) ns else ns) ns rs)" for ns
    by simp
  show ?case using m IH by (cases m) (simp_all add: names_loop_map)
qed

text \<open>
  Claim C2.  \<^verbatim>\<open>processRules\<close> goes through the rules in list order, each rule
  working on the result of the rules before it: when every rule evaluates to a truth
  value, the result is the left fold over the rules that maps the sequence through
  \<open>substitute (subs r)\<close> for a rule \<open>r\<close> that \<^verbatim>\<open>evaluateRule\<close> accepts, and leaves
  it as it is for a rule that \<^verbatim>\<open>evaluateRule\<close> rejects.  The rule with the condition set
  \<open>weight in [250, 750]\<close> and the substitution \<open>(a, a.alt)\<close> turns \<open>[a, b]\<close> into
  \<open>[a.alt, b]\<close> at \<open>weight = 500\<close> and leaves it unchanged at \<open>weight = 900\<close>.
\<close>

theorem processRules_in_order:
  "((\<forall>r\<in>set rs. \<exists>m. evaluateRule r location = Inr m) \<longrightarrow>
     processRules rs location names =
       Inr (foldl (\<lambda>ns r. if evaluateRule r location = Inr True
                           then map (substitute (subs r)) ns else ns) names rs))
   \<and> processRules [weight_rule] [''weight'' \<mapsto> Scalar 500] [''a'', ''b''] = Inr [''a.alt'', ''b'']
   \<and> processRules [weight_rule] [''weight'' \<mapsto> Scalar 900] [''a'', ''b''] = Inr [''a'', ''b'']"
proof (intro conjI impI)
  assume "\<forall>r\<in>set rs. \<exists>m. evaluateRule r location = Inr m"
  then show "processRules rs location names =
       Inr (foldl (\<lambda>ns r. if evaluateRule r location = Inr True
                           then map (substitute (subs r)) ns else ns) names rs)"
    by (rule processRules_foldl)
next
  show "processRules [weight_rule] [''weight'' \<mapsto> Scalar 500] [''a'', ''b''] = Inr [''a.alt'', ''b'']"
    by (simp add: weight_rule_def evaluateRule_def)
next
  show "processRules [weight_rule] [''weight'' \<mapsto> Scalar 900] [''a'', ''b''] = Inr [''a'', ''b'']"
    by (simp add: weight_rule_def evaluateRule_def)
qed

theorem processRules_in_order_witness:
  "processRules [weight_rule, weight_rule\<lparr>subs := [(''a.alt'', ''c''), (''b'', ''d''), (''b'', ''e'')]\<rparr>]
      [''weight'' \<mapsto> Scalar 500] [''a'', ''b'', ''a.alt''] = Inr [''c'', ''d'', ''c'']"
proof -
  let ?rs = "[weight_rule, weight_rule\<lparr>subs := [(''a.alt'', ''c''), (''b'', ''d''), (''b'', ''e'')]\<rparr>]"
  let ?loc = "[''weight'' \<mapsto> Scalar 500]"
  have ev: "\<forall>r\<in>set ?rs. \<exists>m. evaluateRule r ?loc = Inr m"
    by (auto simp: weight_rule_def evaluateRule_def)
  from processRules_in_order[of ?rs ?loc "[''a'', ''b'', ''a.alt'']"] ev
  have "processRules ?rs ?loc [''a'', ''b'', ''a.alt''] =
       Inr (foldl (\<lambda>ns r. if evaluateRule r ?loc = Inr True
                           then map (substitute (subs r)) ns else ns) [''a'', ''b'', ''a.alt''] ?rs)"
    by blast
  then show ?thesis
    by (simp add: weight_rule_def evaluateRule_def substitute_def)
qed

lemma evaluateConditions_bounded:
  "\<forall>cd\<in>set conditions. bounded_at_scalar location cd \<Longrightarrow>
   evaluateConditions conditions location = Inr (conditions_hold conditions location)"
proof (induction conditions)
  case Nil
  then show ?case by (simp add: conditions_hold_def)
next
  case (Cons cd cds)
  then have IH: "evaluateConditions cds location = Inr (conditions_hold cds location)" by simp
  from Cons.prems have b: "bounded_at_scalar location cd" by simp
  then obtain v where v: "location (cond_name cd) = Some (Scalar v)"
    by (auto simp: bounded_at_scalar_def split: option.splits locvalue.splits)
  from b have nb: "cond_minimum cd \<noteq> None \<or> cond_maximum cd \<noteq> None"
    by (simp add: bounded_at_scalar_def)
  show ?case
    using v nb IH
    by (auto simp: conditions_hold_def condition_holds_def split: option.splits)
qed

lemma any_conditionSets_bounded:
  "\<forall>cs\<in>set css. \<forall>cd\<in>set cs. bounded_at_scalar location cd \<Longrightarrow>
   any_conditionSets css location = Inr (\<exists>cs\<in>set css. evaluateConditions cs location = Inr True)"
proof (induction css)
  case Nil
  then show ?case by simp
next
  case (Cons cs css)
  then have IH: "any_conditionSets css location
      = Inr (\<exists>cs\<in>set css. evaluateConditions cs location = Inr True)" by simp
  from Cons.prems have "evaluateConditions cs location = Inr (conditions_hold cs location)"
    by (intro evaluateConditions_bounded) simp
  then show ?case using IH by (cases "conditions_hold cs location") simp_all
qed

lemma evaluateConditions_True_iff:
  "evaluateConditions conditions location = Inr True \<longleftrightarrow>
     conditions_hold conditions location
     \<and> (\<forall>cd\<in>set conditions. cond_minimum cd \<noteq> None \<or> cond_maximum cd \<noteq> None)"
proof (induction conditions)
  case Nil
  then show ?case by (simp add: conditions_hold_def)
next
  case (Cons cd cds)
  show ?case
  proof (cases "location (cond_name cd)")
    case None
    then show ?thesis by (simp add: conditions_hold_def)
  next
    case (Some lv)
    show ?thesis
    proof (cases lv)
      case (Aniso x y)
      with Some show ?thesis
        by (simp add: conditions_hold_def split: option.splits)
    next
      case (Scalar v)
      with Some Cons.IH show ?thesis
        by (auto simp: conditions_hold_def condition_holds_def split: option.splits)
    qed
  qed
qed

text \<open>
  Claim C3, amended.  \<^verbatim>\<open>evaluateConditions\<close> returns \<^verbatim>\<open>True\<close> exactly when every
  condition has at least one bound, finds a number under its axis name and satisfies
  the bounds it gives.  When every condition has at least one bound and finds a number
  under its axis name, \<^verbatim>\<open>evaluateConditions\<close> returns the truth value of "each given
  bound holds", and \<^verbatim>\<open>evaluateRule\<close> returns \<^verbatim>\<open>True\<close> exactly when
  \<^verbatim>\<open>evaluateConditions\<close> returns \<^verbatim>\<open>True\<close> for one of the rule's condition sets.
\<close>

theorem evaluate_bounded_conditions:
  "(evaluateConditions conditions location = Inr True \<longleftrightarrow>
      conditions_hold conditions location
      \<and> (\<forall>cd\<in>set conditions. cond_minimum cd \<noteq> None \<or> cond_maximum cd \<noteq> None))
   \<and> ((\<forall>cd\<in>set conditions. bounded_at_scalar location cd) \<longrightarrow>
      evaluateConditions conditions location = Inr (conditions_hold conditions location))
   \<and> ((\<forall>cs\<in>set (conditionSets rule). \<forall>cd\<in>set cs. bounded_at_scalar location cd) \<longrightarrow>
      evaluateRule rule location
        = Inr (\<exists>cs\<in>set (conditionSets rule). evaluateConditions cs location = Inr True))"
  using evaluateConditions_True_iff[of conditions location]
    evaluateConditions_bounded[of conditions location]
    any_conditionSets_bounded[of "conditionSets rule" location]
  by (simp add: evaluateRule_def)

theorem evaluate_bounded_conditions_witness:
  "evaluateConditions (hd (conditionSets weight_rule)) [''weight'' \<mapsto> Scalar 500] = Inr True
   \<and> evaluateRule weight_rule [''weight'' \<mapsto> Scalar 900] = Inr False"
proof -
  let ?l5 = "[''weight'' \<mapsto> Scalar 500]"
  let ?l9 = "[''weight'' \<mapsto> Scalar 900]"
  have 1: "\<forall>cd\<in>set (hd (conditionSets weight_rule)). bounded_at_scalar ?l5 cd"
    by (simp add: weight_rule_def bounded_at_scalar_def)
  have 2: "\<forall>cs\<in>set (conditionSets weight_rule). \<forall>cd\<in>set cs. bounded_at_scalar ?l9 cd"
    by (simp add: weight_rule_def bounded_at_scalar_def)
  from evaluate_bounded_conditions[of "hd (conditionSets weight_rule)" ?l5 weight_rule] 1
  have a: "evaluateConditions (hd (conditionSets weight_rule)) ?l5
      = Inr (conditions_hold (hd (conditionSets weight_rule)) ?l5)" by blast
  from evaluate_bounded_conditions[of "[]" ?l9 weight_rule] 2
  have b: "evaluateRule weight_rule ?l9
        = Inr (\<exists>cs\<in>set (conditionSets weight_rule). evaluateConditions cs ?l9 = Inr True)"
    by blast
  from a b show ?thesis
    by (simp add: weight_rule_def conditions_hold_def condition_holds_def)
qed

text \<open>
  Claim C3 as stated fails for a condition that has neither bound: the key is there and
  no bound is violated, but the comparison \<^verbatim>\<open>value > cd['maximum']\<close> against
  \<^verbatim>\<open>None\<close> raises \<^verbatim>\<open>TypeError\<close>.
\<close>

theorem unbounded_condition_counterexample:
  "conditions_hold [unbounded_condition] [''weight'' \<mapsto> Scalar 500]
   \<and> evaluateConditions [unbounded_condition] [''weight'' \<mapsto> Scalar 500] = Inl TypeError"
  by (simp add: unbounded_condition_def conditions_hold_def condition_holds_def)

section \<open>Properties of \<open>findDefault\<close>\<close>

lemma first_at_location_find:
  "first_at_location srcs loc = find (\<lambda>s. src_location s = loc) srcs"
  by (induction srcs) auto

lemma first_copyInfo_find: "first_copyInfo srcs = find src_copyInfo srcs"
  by (induction srcs) auto

lemma singleton_map_eq [simp]: "[k \<mapsto> x] = [k \<mapsto> y] \<longleftrightarrow> x = y"
  by (auto dest: map_upd_eqD1)

text \<open>
  \<^verbatim>\<open>findDefault\<close> returns the first source whose location equals the attribute
  \<^verbatim>\<open>defaultLoc\<close> of the document; if there is none, the first source with the
  \<^verbatim>\<open>copyInfo\<close> flag; if there is none either, \<^verbatim>\<open>None\<close>, with a warning and no
  exception.  In each case the returned value is what the document's \<^verbatim>\<open>default\<close>
  attribute holds afterwards, and nothing else of the document changes.
\<close>

lemma findDefault_result:
  "findDefault self =
     (let r = (case find (\<lambda>s. src_location s = defaultLoc self) (sources self) of
                 Some s \<Rightarrow> Some s
               | None \<Rightarrow> find src_copyInfo (sources self))
      in (r, self\<lparr>doc_default := r\<rparr>,
          if r = None then [''Can't find a suitable default location in this document.''] else []))"
  by (simp add: findDefault_def first_at_location_find first_copyInfo_find Let_def
           split: option.splits)

text \<open>
  Claim C4.  The location \<^verbatim>\<open>findDefault\<close> looks for is the attribute \<^verbatim>\<open>defaultLoc\<close>, not
  the location with every axis at its default, which \<^verbatim>\<open>newDefaultLocation\<close> builds.
  Only the reader assigns \<^verbatim>\<open>defaultLoc\<close>; on a document built with \<^verbatim>\<open>addAxis\<close> and
  \<^verbatim>\<open>addSource\<close> it is \<^verbatim>\<open>None\<close>.  There a source placed at the default of every axis is
  not found: with that source alone \<^verbatim>\<open>findDefault\<close> returns \<^verbatim>\<open>None\<close> and warns, and
  with a \<^verbatim>\<open>copyInfo\<close> source before it \<^verbatim>\<open>findDefault\<close> returns the \<^verbatim>\<open>copyInfo\<close> source.
\<close>

theorem findDefault_misses_default_source:
  "src_location regular_source = Some (map_of (newDefaultLocation default_only_document))
   \<and> defaultLoc default_only_document = None
   \<and> findDefault default_only_document
       = (None, default_only_document,
          [''Can't find a suitable default location in this document.''])
   \<and> src_location light_source
       \<noteq> Some (map_of (newDefaultLocation default_only_document))
   \<and> fst (findDefault (default_only_document\<lparr>sources := [light_source, regular_source]\<rparr>))
       = Some light_source"
  by (simp add: findDefault_def default_only_document_def weight_document_def
        empty_document_def weight_axis_def regular_source_def light_source_def
        newDefaultLocation_def fun_eq_iff)

section \<open>Properties of \<open>normalize\<close>\<close>

lemma normalizeLocation_loop_at:
  "normalizeLocation_loop as location new k = loop_at as location k (new k)"
  by (induction as arbitrary: new) (simp_all split: option.splits)

lemma loop_at_append:
  "loop_at (xs @ ys) location k r = loop_at ys location k (loop_at xs location k r)"
  by (induction xs arbitrary: r) simp_all

lemma normalizeSingle_suffix:
  assumes "axes self = xs @ a # ys" "axes self' = a # ys"
  shows "normalizeSingle self (axis_name a) v = normalizeSingle self' (axis_name a) v"
  using assms
  by (simp add: normalizeSingle_def normalizeLocation_def normalizeLocation_loop_at loop_at_append)

lemma normalizeSingle_declared:
  "a \<in> set (axes self) \<Longrightarrow> normalizeSingle self (axis_name a) v \<noteq> None"
proof -
  assume "a \<in> set (axes self)"
  then have "axis_name a \<in> dom (normalizeLocation self [axis_name a \<mapsto> Scalar v])"
    by (simp add: normalizeLocation_def dom_normalizeLocation_loop)
  then show ?thesis by (auto simp: normalizeSingle_def)
qed

lemma normalize_axis_suffix:
  assumes "axes self = xs @ a # ys" "axes self' = a # ys"
  shows "normalize_axis self a = normalize_axis self' a"
  unfolding normalize_axis_def normalizeSingle_suffix[OF assms] ..

lemma normalize_axes_map:
  "normalize_axes self finished rest
     = finished @ map (normalize_axis (self\<lparr>axes := pre @ rest\<rparr>)) rest"
proof (induction rest arbitrary: finished pre)
  case Nil
  then show ?case by simp
next
  case (Cons a r)
  have "normalize_axis (self\<lparr>axes := finished @ a # r\<rparr>) a = normalize_axis (self\<lparr>axes := a # r\<rparr>) a"
    by (rule normalize_axis_suffix) simp_all
  moreover have "normalize_axis (self\<lparr>axes := pre @ a # r\<rparr>) a = normalize_axis (self\<lparr>axes := a # r\<rparr>) a"
    by (rule normalize_axis_suffix) simp_all
  ultimately show ?case
    using Cons.IH[of "finished @ [normalize_axis (self\<lparr>axes := pre @ a # r\<rparr>) a]" "pre @ [a]"]
    by simp
qed

lemma normalize_axis_axes_only:
  "axes self = axes self' \<Longrightarrow> normalize_axis self a = normalize_axis self' a"
  by (simp add: normalize_axis_def normalizeSingle_def normalizeLocation_def)

lemma normalize_axes_all:
  "normalize_axes self [] (axes self) = map (normalize_axis self) (axes self)"
proof -
  have "normalize_axis (self\<lparr>axes := [] @ axes self\<rparr>) = normalize_axis self"
    by (rule ext, rule normalize_axis_axes_only) simp
  with normalize_axes_map[of self "[]" "axes self" "[]"] show ?thesis by simp
qed

lemma normalize_axes_result:
  assumes "normalize self = Inr self'"
  shows "axes self' = map (normalize_axis self) (axes self)"
proof -
  from assms obtain srcs insts where
    "self' = (let self1 = self\<lparr>sources := srcs, instances := insts\<rparr>;
                    self2 = self1\<lparr>axes := normalize_axes self1 [] (axes self1)\<rparr>;
                    self3 = self2\<lparr>rules := map (normalize_rule self2) (rules self2)\<rparr>
                in self3)"
    by (auto simp: normalize_def Let_def split: sum.splits)
  then have "axes self' = normalize_axes (self\<lparr>sources := srcs, instances := insts\<rparr>) []
      (axes (self\<lparr>sources := srcs, instances := insts\<rparr>))"
    by (simp add: Let_def)
  also have "\<dots> = map (normalize_axis (self\<lparr>sources := srcs, instances := insts\<rparr>))
      (axes (self\<lparr>sources := srcs, instances := insts\<rparr>))"
    by (rule normalize_axes_all)
  also have "\<dots> = map (normalize_axis self) (axes self)"
    by (simp add: normalize_axis_axes_only[of "self\<lparr>sources := srcs, instances := insts\<rparr>" self])
  finally show ?thesis .
qed

lemma axis_map_normalize_axis:
  "axis_map (normalize_axis self a)
     = map (\<lambda>(inputValue, outputValue).
              (inputValue, the (normalizeSingle self (axis_name a) outputValue))) (axis_map a)"
proof (cases "axis_map a")
  case Nil
  then show ?thesis by (simp add: normalize_axis_def Let_def)
next
  case (Cons p ps)
  then show ?thesis by (simp add: normalize_axis_def Let_def)
qed

text \<open>
  Claim C7.  When \<^verbatim>\<open>normalize\<close> returns, the document has the same axes in the same
  order and under the same names, and the map of each axis has the same inputs as
  before, pair by pair, while each output is what \<^verbatim>\<open>normalizeLocation\<close> of the
  original document gives for the original output under the axis name, that is, the
  output is normalised like any other value of that axis.
\<close>

theorem normalize_axis_maps:
  assumes "normalize self = Inr self'"
  shows "length (axes self') = length (axes self)
    \<and> (\<forall>i<length (axes self).
          axis_name (axes self' ! i) = axis_name (axes self ! i)
          \<and> map fst (axis_map (axes self' ! i)) = map fst (axis_map (axes self ! i))
          \<and> map (\<lambda>(inputValue, outputValue).
                   normalizeLocation self [axis_name (axes self ! i) \<mapsto> Scalar outputValue]
                     (axis_name (axes self ! i)))
               (axis_map (axes self ! i))
             = map (\<lambda>(inputValue, newOutputValue). Some newOutputValue)
                 (axis_map (axes self' ! i)))"
proof (intro conjI allI impI)
  from assms have ax: "axes self' = map (normalize_axis self) (axes self)"
    by (rule normalize_axes_result)
  then show "length (axes self') = length (axes self)" by simp
  fix i assume i: "i < length (axes self)"
  define a where "a = axes self ! i"
  from ax i have a': "axes self' ! i = normalize_axis self a" by (simp add: a_def)
  show "axis_name (axes self' ! i) = axis_name (axes self ! i)"
    unfolding a' a_def[symmetric] by (simp add: normalize_axis_def Let_def)
  show "map fst (axis_map (axes self' ! i)) = map fst (axis_map (axes self ! i))"
    unfolding a' a_def[symmetric] by (simp add: axis_map_normalize_axis case_prod_unfold)
  from i have "a \<in> set (axes self)" by (simp add: a_def)
  then have "normalizeSingle self (axis_name a) v \<noteq> None" for v
    by (rule normalizeSingle_declared)
  then have s: "Some (the (normalizeSingle self (axis_name a) v)) = normalizeSingle self (axis_name a) v" for v
    by simp
  have "map (\<lambda>(inputValue, outputValue). normalizeSingle self (axis_name a) outputValue) (axis_map a)
      = map (\<lambda>(inputValue, newOutputValue). Some newOutputValue) (axis_map (normalize_axis self a))"
    by (simp add: axis_map_normalize_axis case_prod_unfold s)
  then show "map (\<lambda>(inputValue, outputValue).
                   normalizeLocation self [axis_name (axes self ! i) \<mapsto> Scalar outputValue]
                     (axis_name (axes self ! i)))
               (axis_map (axes self ! i))
             = map (\<lambda>(inputValue, newOutputValue). Some newOutputValue)
                 (axis_map (axes self' ! i))"
    unfolding a' a_def[symmetric] normalizeSingle_def .
qed

lemma normalize_weight_document:
  "normalize weight_document = Inr (weight_document\<lparr>axes :=
     [weight_axis\<lparr>axis_map := [(0, - (3 / 4)), (1, 1 / 2)], axis_minimum := - 1,
        axis_maximum := 1, axis_default := 0\<rparr>]\<rparr>)"
  by (simp add: normalize_def weight_document_def empty_document_def weight_axis_def
        normalize_axis_def normalizeSingle_def normalizeLocation_def normalizeValue_def Let_def)

theorem normalize_axis_maps_witness:
  "\<exists>self'. normalize weight_document = Inr self'
     \<and> map axis_map (axes weight_document) = [[(0, 100), (1, 700)]]
     \<and> map axis_map (axes self') = [[(0, - (3 / 4)), (1, 1 / 2)]]
     \<and> normalizeLocation weight_document [''weight'' \<mapsto> Scalar 700] ''weight'' = Some (1 / 2)"
proof -
  from normalize_axis_maps[OF normalize_weight_document]
  have "map (\<lambda>(inputValue, outputValue).
            normalizeLocation weight_document [axis_name (axes weight_document ! 0) \<mapsto> Scalar outputValue]
              (axis_name (axes weight_document ! 0)))
          (axis_map (axes weight_document ! 0))
        = map (\<lambda>(inputValue, newOutputValue). Some newOutputValue)
            (axis_map (axes (weight_document\<lparr>axes :=
     [weight_axis\<lparr>axis_map := [(0, - (3 / 4)), (1, 1 / 2)], axis_minimum := - 1,
        axis_maximum := 1, axis_default := 0\<rparr>]\<rparr>) ! 0))"
    by (simp add: weight_document_def)
  then have "normalizeLocation weight_document [''weight'' \<mapsto> Scalar 700] ''weight'' = Some (1 / 2)"
    by (simp add: weight_document_def weight_axis_def)
  then show ?thesis
    using normalize_weight_document by (simp add: weight_document_def weight_axis_def)
qed

text \<open>The exception of \<^verbatim>\<open>normalize\<close> is that of its first failing step.\<close>

lemma raises_first_Nil: "raises_first [] r \<longleftrightarrow> (\<exists>x. r = Inr x)"
  by (cases r) (simp_all add: raises_first_def)

lemma raises_first_bind:
  assumes "raises_first fs1 r1" and "\<And>x. r1 = Inr x \<Longrightarrow> raises_first fs2 (f x)"
  shows "raises_first (fs1 @ fs2) (case r1 of Inl e \<Rightarrow> Inl e | Inr x \<Rightarrow> f x)"
proof (cases fs1)
  case Nil
  with assms(1) obtain x where x: "r1 = Inr x" by (auto simp: raises_first_Nil)
  with assms(2)[OF x] Nil show ?thesis by simp
next
  case (Cons e rest)
  with assms(1) show ?thesis by (simp add: raises_first_def)
qed

lemma raises_first_Inr: "raises_first [] (Inr x)"
  by (simp add: raises_first_def)

lemma raises_first_location:
  "raises_first (location_failures self loc) (normalizeLocation_attr self loc)"
  by (cases loc) (simp_all add: raises_first_def location_failures_def normalizeLocation_attr_def)

lemma raises_first_entry:
  "raises_first (entry_failures self e)
     (case subscript e of Inl err \<Rightarrow> Inl err | Inr location \<Rightarrow> normalizeLocation_attr self location)"
proof (cases e)
  case Absent
  then show ?thesis by (simp add: entry_failures_def raises_first_def)
next
  case (Present loc)
  with raises_first_location[of self loc] show ?thesis by (simp add: entry_failures_def)
qed

lemma normalize_masters_step:
  "normalize_masters self (m # rest) =
     (case (case subscript (gm_location m) of
              Inl err \<Rightarrow> Inl err | Inr location \<Rightarrow> normalizeLocation_attr self location) of
        Inl e \<Rightarrow> Inl e
      | Inr loc \<Rightarrow>
          (case normalize_masters self rest of
             Inl e \<Rightarrow> Inl e
           | Inr rest' \<Rightarrow> Inr (m\<lparr>gm_location := Present (Some loc)\<rparr> # rest')))"
  by (simp split: sum.splits)

lemma raises_first_masters:
  "raises_first (concat (map (\<lambda>m. entry_failures self (gm_location m)) ms))
     (normalize_masters self ms)"
proof (induction ms)
  case Nil
  then show ?case by (simp add: raises_first_def)
next
  case (Cons m ms)
  have "raises_first (entry_failures self (gm_location m)
          @ (concat (map (\<lambda>m. entry_failures self (gm_location m)) ms) @ []))
     (normalize_masters self (m # ms))"
    unfolding normalize_masters_step
    by (intro raises_first_bind raises_first_entry Cons.IH raises_first_Inr)
  then show ?case by simp
qed

lemma normalize_glyphData_step:
  "normalize_glyphData self gd =
     (case (case subscript (gd_instanceLocation gd) of
              Inl err \<Rightarrow> Inl err | Inr location \<Rightarrow> normalizeLocation_attr self location) of
        Inl e \<Rightarrow> Inl e
      | Inr loc \<Rightarrow>
          (case (case subscript (gd_masters gd) of
                   Inl err \<Rightarrow> Inl err
                 | Inr None \<Rightarrow> Inl TypeError
                 | Inr (Some masters) \<Rightarrow> normalize_masters self masters) of
             Inl e \<Rightarrow> Inl e
           | Inr masters' \<Rightarrow>
               Inr (gd\<lparr>gd_instanceLocation := Present (Some loc),
                        gd_masters := Present (Some masters')\<rparr>)))"
  by (simp add: normalize_glyphData_def split: sum.splits option.splits)

lemma raises_first_masters_entry:
  "raises_first (masters_failures self e)
     (case subscript e of
        Inl err \<Rightarrow> Inl err
      | Inr None \<Rightarrow> Inl TypeError
      | Inr (Some masters) \<Rightarrow> normalize_masters self masters)"
proof (cases e)
  case Absent
  then show ?thesis by (simp add: masters_failures_def raises_first_def)
next
  case (Present v)
  show ?thesis
  proof (cases v)
    case None
    with Present show ?thesis by (simp add: masters_failures_def raises_first_def)
  next
    case (Some masters)
    with Present raises_first_masters[of self masters] show ?thesis
      by (simp add: masters_failures_def)
  qed
qed

lemma raises_first_glyphData:
  "raises_first (glyph_failures self gd) (normalize_glyphData self gd)"
proof -
  have "raises_first (entry_failures self (gd_instanceLocation gd)
          @ (masters_failures self (gd_masters gd) @ []))
     (normalize_glyphData self gd)"
    unfolding normalize_glyphData_step
    by (intro raises_first_bind raises_first_entry raises_first_masters_entry raises_first_Inr)
  then show ?thesis by (simp add: glyph_failures_def)
qed

lemma raises_first_glyphs:
  "raises_first (concat (map (\<lambda>g. glyph_failures self (snd g)) gs)) (normalize_glyphs self gs)"
proof (induction gs)
  case Nil
  then show ?case by (simp add: raises_first_def)
next
  case (Cons g gs)
  obtain n gd where g: "g = (n, gd)" by (cases g)
  have "raises_first (glyph_failures self gd
          @ (concat (map (\<lambda>g. glyph_failures self (snd g)) gs) @ []))
     (normalize_glyphs self ((n, gd) # gs))"
    unfolding normalize_glyphs.simps
    by (intro raises_first_bind raises_first_glyphData Cons.IH raises_first_Inr)
  then show ?case by (simp add: g)
qed

lemma raises_first_instances:
  "raises_first (concat (map (instance_failures self) is)) (normalize_instances self is)"
proof (induction "is")
  case Nil
  then show ?case by (simp add: raises_first_def)
next
  case (Cons i "is")
  have "raises_first (concat (map (\<lambda>g. glyph_failures self (snd g)) (inst_glyphs i))
          @ (location_failures self (inst_location i)
             @ (concat (map (instance_failures self) is) @ [])))
     (normalize_instances self (i # is))"
    unfolding normalize_instances.simps
    by (intro raises_first_bind raises_first_glyphs raises_first_location Cons.IH raises_first_Inr)
  then show ?case by (simp add: instance_failures_def[of self i])
qed

lemma raises_first_sources:
  "raises_first (concat (map (\<lambda>item. location_failures self (src_location item)) srcs))
     (normalize_sources self srcs)"
proof (induction srcs)
  case Nil
  then show ?case by (simp add: raises_first_def)
next
  case (Cons s srcs)
  have "raises_first (location_failures self (src_location s)
          @ (concat (map (\<lambda>item. location_failures self (src_location item)) srcs) @ []))
     (normalize_sources self (s # srcs))"
    unfolding normalize_sources.simps
    by (intro raises_first_bind raises_first_location Cons.IH raises_first_Inr)
  then show ?case by simp
qed

lemma raises_first_normalize: "raises_first (failures self) (normalize self)"
proof -
  have "raises_first
      (concat (map (\<lambda>item. location_failures self (src_location item)) (sources self))
       @ (concat (map (instance_failures self) (instances self)) @ []))
      (normalize self)"
    unfolding normalize_def Let_def
    by (intro raises_first_bind raises_first_sources raises_first_instances raises_first_Inr)
  then show ?thesis by (simp add: failures_def)
qed

lemma location_failures_kinds: "set (location_failures self loc) \<subseteq> {KeyError, TypeError}"
  by (auto simp: location_failures_def)

lemma entry_failures_kinds: "set (entry_failures self e) \<subseteq> {KeyError, TypeError}"
  using location_failures_kinds by (cases e) (simp_all add: entry_failures_def)

lemma masters_failures_kinds: "set (masters_failures self e) \<subseteq> {KeyError, TypeError}"
proof (cases e)
  case Absent
  then show ?thesis by (simp add: masters_failures_def)
next
  case (Present v)
  then show ?thesis
    using entry_failures_kinds[of self] by (cases v) (auto simp: masters_failures_def)
qed

lemma glyph_failures_kinds: "set (glyph_failures self gd) \<subseteq> {KeyError, TypeError}"
  using entry_failures_kinds[of self "gd_instanceLocation gd"]
    masters_failures_kinds[of self "gd_masters gd"]
  by (simp add: glyph_failures_def)

lemma instance_failures_kinds: "set (instance_failures self i) \<subseteq> {KeyError, TypeError}"
  using glyph_failures_kinds[of self] location_failures_kinds[of self "inst_location i"]
  by (auto simp: instance_failures_def)

lemma failures_kinds: "set (failures self) \<subseteq> {KeyError, TypeError}"
  using instance_failures_kinds[of self] location_failures_kinds[of self]
  by (auto simp: failures_def)

lemma lacks_key_failure: "lacks_key gd \<Longrightarrow> KeyError \<in> set (glyph_failures self gd)"
  by (auto simp: lacks_key_def glyph_failures_def entry_failures_def masters_failures_def)

lemma incomplete_glyph_failure:
  assumes "has_incomplete_glyph self"
  shows "KeyError \<in> set (failures self)"
proof -
  from assms obtain i g where i: "i \<in> set (instances self)" and g: "g \<in> set (inst_glyphs i)"
    and l: "lacks_key (snd g)"
    by (auto simp: has_incomplete_glyph_def list_ex_iff)
  from lacks_key_failure[OF l, of self] g have "KeyError \<in> set (instance_failures self i)"
    by (auto simp: instance_failures_def)
  with i show ?thesis by (auto simp: failures_def)
qed

lemmas failures_defs = failures_def instance_failures_def glyph_failures_def
  masters_failures_def entry_failures_def location_failures_def

lemmas incomplete_defs = muting_document_def unlocated_source_document_def
  unlocated_instance_document_def unlocated_glyph_document_def weight_document_def
  empty_document_def bold_instance_def muted_glyph_def regular_source_def light_source_def

text \<open>
  Claim C10, amended.  \<^verbatim>\<open>normalize\<close> raises the exception of its first failing step,
  the steps taken in the order of the code: the location of each source; then, for
  each instance, for each of its glyph overrides the entry \<^verbatim>\<open>instanceLocation\<close>, the
  entry \<^verbatim>\<open>masters\<close> and the \<^verbatim>\<open>location\<close> of each master, and after the overrides the
  location of the instance.  A step fails with \<^verbatim>\<open>KeyError\<close> when its key is absent and
  with \<^verbatim>\<open>TypeError\<close> when its location is \<^verbatim>\<open>None\<close> on a document with axes, or its
  list of masters is \<^verbatim>\<open>None\<close>; \<^verbatim>\<open>failures\<close> lists these in order.  When no step fails
  \<^verbatim>\<open>normalize\<close> returns.  So on a document that has an instance with a glyph override
  lacking \<^verbatim>\<open>instanceLocation\<close> or \<^verbatim>\<open>masters\<close>, \<^verbatim>\<open>normalize\<close> never returns: some step
  fails, the exception raised is that of the first one, and it is \<^verbatim>\<open>KeyError\<close> or
  \<^verbatim>\<open>TypeError\<close>; it is \<^verbatim>\<open>TypeError\<close> exactly when a \<^verbatim>\<open>None\<close> is reached before the first
  absent key.
\<close>

theorem normalize_incomplete_glyph:
  "(failures self = [] \<longrightarrow> (\<exists>self'. normalize self = Inr self'))
   \<and> (\<forall>e rest. failures self = e # rest \<longrightarrow> normalize self = Inl e)
   \<and> (has_incomplete_glyph self \<longrightarrow>
        KeyError \<in> set (failures self)
        \<and> (\<exists>e rest. failures self = e # rest \<and> normalize self = Inl e
              \<and> (e = KeyError \<or> e = TypeError)))"
proof (intro conjI impI allI)
  assume "failures self = []"
  with raises_first_normalize[of self] show "\<exists>self'. normalize self = Inr self'"
    by (simp add: raises_first_Nil)
next
  fix e rest
  assume "failures self = e # rest"
  with raises_first_normalize[of self] show "normalize self = Inl e"
    by (simp add: raises_first_def)
next
  assume "has_incomplete_glyph self"
  then show "KeyError \<in> set (failures self)" by (rule incomplete_glyph_failure)
next
  assume "has_incomplete_glyph self"
  then have k: "KeyError \<in> set (failures self)" by (rule incomplete_glyph_failure)
  then obtain e rest where f: "failures self = e # rest" by (cases "failures self") auto
  with raises_first_normalize[of self] have n: "normalize self = Inl e"
    by (simp add: raises_first_def)
  from f failures_kinds[of self] have "e = KeyError \<or> e = TypeError" by auto
  with f n show "\<exists>e rest. failures self = e # rest \<and> normalize self = Inl e
      \<and> (e = KeyError \<or> e = TypeError)"
    by blast
qed

theorem normalize_incomplete_glyph_witness:
  "has_incomplete_glyph muting_document
   \<and> failures muting_document = [KeyError, KeyError]
   \<and> normalize muting_document = Inl KeyError
   \<and> has_incomplete_glyph unlocated_instance_document
   \<and> failures unlocated_instance_document = [KeyError, KeyError, TypeError]
   \<and> normalize unlocated_instance_document = Inl KeyError
   \<and> has_incomplete_glyph unlocated_source_document
   \<and> failures unlocated_source_document = [TypeError, KeyError, KeyError]
   \<and> normalize unlocated_source_document = Inl TypeError
   \<and> has_incomplete_glyph unlocated_glyph_document
   \<and> failures unlocated_glyph_document = [TypeError, KeyError]
   \<and> normalize unlocated_glyph_document = Inl TypeError
   \<and> KeyError \<in> set (failures unlocated_glyph_document)
   \<and> failures weight_document = []
   \<and> (\<exists>self'. normalize weight_document = Inr self')"
proof -
  have h1: "has_incomplete_glyph muting_document"
    by (simp add: has_incomplete_glyph_def lacks_key_def incomplete_defs)
  have f1: "failures muting_document = [KeyError, KeyError]"
    by (simp add: failures_defs incomplete_defs)
  have h2: "has_incomplete_glyph unlocated_instance_document"
    by (simp add: has_incomplete_glyph_def lacks_key_def incomplete_defs)
  have f2: "failures unlocated_instance_document = [KeyError, KeyError, TypeError]"
    by (simp add: failures_defs incomplete_defs)
  have h3: "has_incomplete_glyph unlocated_source_document"
    by (simp add: has_incomplete_glyph_def lacks_key_def incomplete_defs)
  have f3: "failures unlocated_source_document = [TypeError, KeyError, KeyError]"
    by (simp add: failures_defs incomplete_defs)
  have h4: "has_incomplete_glyph unlocated_glyph_document"
    by (simp add: has_incomplete_glyph_def lacks_key_def incomplete_defs)
  have f4: "failures unlocated_glyph_document = [TypeError, KeyError]"
    by (simp add: failures_defs incomplete_defs)
  have f5: "failures weight_document = []"
    by (simp add: failures_defs incomplete_defs)
  from normalize_incomplete_glyph[of muting_document] h1 f1
  have n1: "normalize muting_document = Inl KeyError" by simp
  from normalize_incomplete_glyph[of unlocated_instance_document] h2 f2
  have n2: "normalize unlocated_instance_document = Inl KeyError" by simp
  from normalize_incomplete_glyph[of unlocated_source_document] h3 f3
  have n3: "normalize unlocated_source_document = Inl TypeError" by simp
  from normalize_incomplete_glyph[of unlocated_glyph_document] h4 f4
  have n4: "normalize unlocated_glyph_document = Inl TypeError" by simp
  from normalize_incomplete_glyph[of unlocated_glyph_document] h4
  have k4: "KeyError \<in> set (failures unlocated_glyph_document)" by blast
  from normalize_incomplete_glyph[of weight_document] f5
  have n5: "\<exists>self'. normalize weight_document = Inr self'" by simp
  from h1 f1 n1 h2 f2 n2 h3 f3 n3 h4 f4 n4 k4 f5 n5 show ?thesis by simp
qed

text \<open>
  Claim C10 as stated fails when a \<^verbatim>\<open>None\<close> comes first.  The sources are rescaled
  before the instances, so a source without a location makes \<^verbatim>\<open>normalizeLocation\<close>
  raise \<^verbatim>\<open>TypeError\<close> before any glyph override is looked at; and a glyph override
  whose \<^verbatim>\<open>instanceLocation\<close> is present but \<^verbatim>\<open>None\<close> raises \<^verbatim>\<open>TypeError\<close> before its
  absent \<^verbatim>\<open>masters\<close> entry is subscripted.
\<close>

theorem normalize_incomplete_glyph_counterexample:
  "has_incomplete_glyph unlocated_source_document
   \<and> normalize unlocated_source_document = Inl TypeError
   \<and> normalize unlocated_source_document \<noteq> Inl KeyError"
  by (simp add: has_incomplete_glyph_def lacks_key_def incomplete_defs normalize_def
        normalizeLocation_attr_def)

section \<open>Properties of the writer\<close>

lemma find_snoc:
  "find P (xs @ [x]) = (case find P xs of Some y \<Rightarrow> Some y | None \<Rightarrow> if P x then Some x else None)"
  by (induction xs) simp_all

lemma map_of_dict_set: "map_of (dict_set k v d) = (map_of d)(k \<mapsto> v)"
  by (induction d) (auto simp: fun_eq_iff)

lemma map_of_newDefaultLocation_loop:
  "map_of (newDefaultLocation_loop as loc0) k
     = (case find (\<lambda>a. axis_name a = k) (rev as) of
          Some a \<Rightarrow> Some (Scalar (axis_default a))
        | None \<Rightarrow> map_of loc0 k)"
  by (induction as arbitrary: loc0) (simp_all add: find_snoc map_of_dict_set split: option.splits)

lemma map_of_newDefaultLocation:
  "map_of (newDefaultLocation self) k = map_option Scalar (default_of self k)"
  by (simp add: newDefaultLocation_def map_of_newDefaultLocation_loop default_of_def
        split: option.splits)

lemma map_of_map_entries:
  "map_of (map (\<lambda>(k, d). (k, f k d)) xs) k = map_option (f k) (map_of xs k)"
  by (induction xs) auto

lemma makeLocationElement_stored:
  "makeLocationElement self (Some location) name = Inr (e, v) \<Longrightarrow>
   stored v = Some (validated self location)"
  by (auto simp: makeLocationElement_def Let_def stored_def validated_def fun_eq_iff
        map_of_map_entries map_of_newDefaultLocation split: option.splits)

lemma makeLocationElement_None:
  "makeLocationElement self None name = Inl AttributeError"
  by (simp add: makeLocationElement_def Let_def split: option.splits)

lemma optional_location_stored:
  "snd (optional_location self loc) = map_option (validated self) loc"
proof (cases loc)
  case None
  then show ?thesis by (simp add: optional_location_def makeLocationElement_None)
next
  case (Some location)
  obtain e v where "makeLocationElement self (Some location) None = Inr (e, v)"
    by (simp add: makeLocationElement_def Let_def)
  with Some makeLocationElement_stored[OF this] show ?thesis
    by (simp add: optional_location_def)
qed

lemma addSource_location:
  assumes "addSource self sourceObject rootElement = Inr (rootElement', sourceObject')"
  shows "src_location sourceObject \<noteq> None
    \<and> src_location sourceObject' = map_option (validated self) (src_location sourceObject)"
proof (cases "src_location sourceObject")
  case None
  with assms show ?thesis
    by (simp add: addSource_def source_element_def Let_def makeLocationElement_None)
next
  case (Some location)
  with assms obtain e v where m: "makeLocationElement self (Some location) None = Inr (e, v)"
    and s: "sourceObject' = sourceObject\<lparr>src_location := stored v\<rparr>"
    by (auto simp: addSource_def source_element_def Let_def split: sum.splits)
  from makeLocationElement_stored[OF m] s Some show ?thesis by simp
qed

lemma addSources_loop_locations:
  "addSources_loop self srcs rootElement = Inr (rootElement', srcs') \<Longrightarrow>
   (\<forall>s\<in>set srcs. src_location s \<noteq> None)
   \<and> map src_location srcs' = map (\<lambda>s. map_option (validated self) (src_location s)) srcs"
proof (induction srcs arbitrary: rootElement srcs')
  case Nil
  then show ?case by simp
next
  case (Cons s srcs)
  from Cons.prems obtain r1 s1 rest1 where
    1: "addSource self s rootElement = Inr (r1, s1)"
    and 2: "addSources_loop self srcs r1 = Inr (rootElement', rest1)"
    and 3: "srcs' = s1 # rest1"
    by (auto split: sum.splits)
  from addSource_location[OF 1] Cons.IH[OF 2] 3 show ?case by simp
qed

lemma addInstance_location:
  assumes "addInstance self instanceObject rootElement = Inr (rootElement', instanceObject')"
  shows "inst_location instanceObject' = map_option (validated self) (inst_location instanceObject)"
proof -
  obtain es loc where o: "optional_location self (inst_location instanceObject) = (es, loc)"
    by (cases "optional_location self (inst_location instanceObject)")
  with assms have "inst_location instanceObject' = loc"
    by (auto simp: addInstance_def instance_element_def Let_def split: sum.splits)
  with optional_location_stored[of self "inst_location instanceObject"] o show ?thesis by simp
qed

lemma addInstances_loop_locations:
  "addInstances_loop self is rootElement = Inr (rootElement', is') \<Longrightarrow>
   map inst_location is' = map (\<lambda>i. map_option (validated self) (inst_location i)) is"
proof (induction "is" arbitrary: rootElement is')
  case Nil
  then show ?case by simp
next
  case (Cons i "is")
  from Cons.prems obtain r1 i1 rest1 where
    1: "addInstance self i rootElement = Inr (r1, i1)"
    and 2: "addInstances_loop self is r1 = Inr (rootElement', rest1)"
    and 3: "is' = i1 # rest1"
    by (auto split: sum.splits)
  from addInstance_location[OF 1] Cons.IH[OF 2] 3 show ?case by simp
qed

lemma writer_write_locations:
  assumes "writer_write documentObject = Inr (rootElement, self')"
  shows "axes self' = axes documentObject
    \<and> (\<forall>s\<in>set (sources documentObject). src_location s \<noteq> None)
    \<and> map src_location (sources self')
        = map (\<lambda>s. map_option (validated documentObject) (src_location s)) (sources documentObject)
    \<and> map inst_location (instances self')
        = map (\<lambda>i. map_option (validated documentObject) (inst_location i)) (instances documentObject)"
  using assms unfolding writer_write_def Let_def
  by (auto split: sum.splits prod.splits option.splits
        dest!: addSources_loop_locations addInstances_loop_locations)


lemma find_SomeD: "find P xs = Some x \<Longrightarrow> x \<in> set xs \<and> P x"
  by (induction xs) (auto split: if_splits)

lemma default_of_None: "default_of self k = None \<longleftrightarrow> k \<notin> axis_name ` set (axes self)"
  by (auto simp: default_of_def find_None_iff)

lemma default_of_unique:
  assumes "a \<in> set (axes self)" "\<forall>b\<in>set (axes self). axis_name b = axis_name a \<longrightarrow> b = a"
  shows "default_of self (axis_name a) = Some (axis_default a)"
proof -
  from assms(1) have "find (\<lambda>b. axis_name b = axis_name a) (rev (axes self)) \<noteq> None"
    by (auto simp: find_None_iff)
  then obtain b where b: "find (\<lambda>b. axis_name b = axis_name a) (rev (axes self)) = Some b"
    by blast
  then have "b \<in> set (rev (axes self)) \<and> axis_name b = axis_name a"
    by (rule find_SomeD)
  then have "b \<in> set (axes self) \<and> axis_name b = axis_name a" by simp
  with assms(2) have "b = a" by blast
  with b show ?thesis by (simp add: default_of_def)
qed

lemma dom_validated: "dom (validated self location) = axis_name ` set (axes self)"
proof (rule set_eqI)
  fix k
  have "validated self location k = None \<longleftrightarrow> default_of self k = None"
    by (simp add: validated_def split: option.splits)
  then show "k \<in> dom (validated self location) \<longleftrightarrow> k \<in> axis_name ` set (axes self)"
    by (simp add: domIff default_of_None)
qed

lemma validated_keeps:
  "location k = Some v \<Longrightarrow> k \<in> axis_name ` set (axes self) \<Longrightarrow> validated self location k = Some v"
  using default_of_None[of self k] by (auto simp: validated_def split: option.splits)

lemma validated_fills:
  assumes "a \<in> set (axes self)" "\<forall>b\<in>set (axes self). axis_name b = axis_name a \<longrightarrow> b = a"
    and "location (axis_name a) = None"
  shows "validated self location (axis_name a) = Some (Scalar (axis_default a))"
  using default_of_unique[OF assms(1,2)] assms(3) by (simp add: validated_def)

lemma validated_fixpoint:
  "validated self location = location \<longleftrightarrow> dom location = axis_name ` set (axes self)"
proof
  assume "validated self location = location"
  then have "dom location = dom (validated self location)" by simp
  then show "dom location = axis_name ` set (axes self)" by (simp add: dom_validated)
next
  assume d: "dom location = axis_name ` set (axes self)"
  show "validated self location = location"
  proof (rule ext)
    fix k
    show "validated self location k = location k"
    proof (cases "location k")
      case None
      then have "k \<notin> dom location" by (simp add: domIff)
      with d have "k \<notin> axis_name ` set (axes self)" by simp
      with None show ?thesis using default_of_None[of self k] by (simp add: validated_def)
    next
      case (Some v)
      then have "k \<in> dom location" by (simp add: domIff)
      with d have "k \<in> axis_name ` set (axes self)" by simp
      with Some show ?thesis by (simp add: validated_keeps)
    qed
  qed
qed

lemma validated_axes_only: "axes self = axes self' \<Longrightarrow> validated self = validated self'"
  by (simp add: validated_def default_of_def fun_eq_iff)

lemma conditions_loop_eq:
  "conditions_loop conds (Element t a x c)
     = Element t a x (c @ map condition_element (filter has_bound conds))"
  by (induction conds arbitrary: c) (simp_all add: has_bound_def)

lemma conditionSets_loop_eq:
  "conditionSets_loop css (Element t a x c)
     = Element t a x (c @ map conditionset_element (filter (\<lambda>cs. \<exists>c\<in>set cs. has_bound c) css))"
proof (induction css arbitrary: c)
  case Nil
  then show ?case by simp
next
  case (Cons cs css)
  have e: "filter has_bound cs = [] \<longleftrightarrow> \<not> (\<exists>c\<in>set cs. has_bound c)"
    by (simp add: filter_empty_conv)
  show ?case
    using e by (simp add: Cons.IH new_element_def conditions_loop_eq conditionset_element_def)
qed

lemma subs_elements_loop_eq:
  "subs_elements_loop sbs (Element t a x c) = Element t a x (c @ map sub_element sbs)"
  by (induction sbs arbitrary: c) simp_all

lemma rule_element_eq:
  "rule_element ruleObject =
     Element ''rule'' (case rule_name ruleObject of Some n \<Rightarrow> [(''name'', n)] | None \<Rightarrow> []) None
       (map conditionset_element
          (filter (\<lambda>cs. \<exists>c\<in>set cs. has_bound c) (conditionSets ruleObject))
        @ map sub_element (subs ruleObject))"
  by (simp add: rule_element_def new_element_def conditionSets_loop_eq subs_elements_loop_eq
        split: option.splits)

lemma condition_element_attrib:
  "map_of (attrib_of (condition_element cond)) ''name'' = Some (cond_name cond)
   \<and> map_of (attrib_of (condition_element cond)) ''minimum'' = map_option intOrFloat (cond_minimum cond)
   \<and> map_of (attrib_of (condition_element cond)) ''maximum'' = map_option intOrFloat (cond_maximum cond)"
  by (cases "cond_minimum cond"; cases "cond_maximum cond")
     (simp_all add: condition_element_def new_element_def)

lemma tag_of_append_child [simp]: "tag_of (append_child c e) = tag_of c"
  by (cases c) simp

lemma children_of_append_child [simp]: "children_of (append_child c e) = children_of c @ [e]"
  by (cases c) simp

lemma append_to_first_find:
  "append_to_first t e cs = Some cs' \<Longrightarrow>
   find (\<lambda>c. tag_of c = t') cs'
     = (if t' = t then map_option (\<lambda>c. append_child c e) (find (\<lambda>c. tag_of c = t) cs)
        else find (\<lambda>c. tag_of c = t') cs)"
proof (induction cs arbitrary: cs')
  case Nil
  then show ?case by simp
next
  case (Cons c cs)
  show ?case
  proof (cases "tag_of c = t")
    case True
    with Cons.prems show ?thesis by auto
  next
    case False
    with Cons.prems obtain r where r: "append_to_first t e cs = Some r" and c: "cs' = c # r"
      by auto
    from Cons.IH[OF r] False c show ?thesis by auto
  qed
qed

lemma append_in_section_of:
  assumes "append_in_section t e rootElement = Inr rootElement'"
  shows "section_of t' rootElement'
     = (if t' = t then map_option (\<lambda>c. append_child c e) (section_of t rootElement)
        else section_of t' rootElement)"
proof -
  obtain rt ra rx rc where r: "rootElement = Element rt ra rx rc" by (cases rootElement)
  with assms obtain rc' where a: "append_to_first t e rc = Some rc'"
    and r': "rootElement' = Element rt ra rx rc'"
    by (auto split: option.splits)
  from append_to_first_find[OF a, of t'] r r' show ?thesis
    by (simp add: section_of_def)
qed

lemma section_of_append_child:
  "section_of t' (append_child rootElement e)
     = (case section_of t' rootElement of
          Some c \<Rightarrow> Some c
        | None \<Rightarrow> if tag_of e = t' then Some e else None)"
proof -
  have "find P (xs @ [x]) = (case find P xs of Some y \<Rightarrow> Some y | None \<Rightarrow> if P x then Some x else None)"
    for P :: "element \<Rightarrow> bool" and xs x
    by (induction xs) simp_all
  then show ?thesis by (simp add: section_of_def)
qed

lemma addAxes_loop_section:
  "addAxes_loop as rootElement = Inr rootElement' \<Longrightarrow> t' \<noteq> ''axes'' \<Longrightarrow>
   section_of t' rootElement' = section_of t' rootElement"
proof (induction as arbitrary: rootElement)
  case Nil
  then show ?case by simp
next
  case (Cons a as)
  from Cons.prems(1) obtain r1 where 1: "addAxis a rootElement = Inr r1"
    and 2: "addAxes_loop as r1 = Inr rootElement'"
    by (auto split: sum.splits)
  from 1 obtain e where "append_in_section ''axes'' e rootElement = Inr r1"
    by (simp add: addAxis_def)
  from append_in_section_of[OF this, of t'] Cons.prems(2)
  have "section_of t' r1 = section_of t' rootElement" by simp
  with Cons.IH[OF 2 Cons.prems(2)] show ?case by simp
qed

lemma addSources_loop_section:
  "addSources_loop self srcs rootElement = Inr (rootElement', srcs') \<Longrightarrow> t' \<noteq> ''sources'' \<Longrightarrow>
   section_of t' rootElement' = section_of t' rootElement"
proof (induction srcs arbitrary: rootElement srcs')
  case Nil
  then show ?case by simp
next
  case (Cons s srcs)
  from Cons.prems(1) obtain r1 s1 rest1 where 1: "addSource self s rootElement = Inr (r1, s1)"
    and 2: "addSources_loop self srcs r1 = Inr (rootElement', rest1)"
    by (auto split: sum.splits)
  from 1 obtain e where "append_in_section ''sources'' e rootElement = Inr r1"
    by (auto simp: addSource_def split: sum.splits prod.splits)
  from append_in_section_of[OF this, of t'] Cons.prems(2)
  have "section_of t' r1 = section_of t' rootElement" by simp
  with Cons.IH[OF 2 Cons.prems(2)] show ?case by simp
qed

lemma addInstances_loop_section:
  "addInstances_loop self is rootElement = Inr (rootElement', is') \<Longrightarrow> t' \<noteq> ''instances'' \<Longrightarrow>
   section_of t' rootElement' = section_of t' rootElement"
proof (induction "is" arbitrary: rootElement is')
  case Nil
  then show ?case by simp
next
  case (Cons i "is")
  from Cons.prems(1) obtain r1 i1 rest1 where 1: "addInstance self i rootElement = Inr (r1, i1)"
    and 2: "addInstances_loop self is r1 = Inr (rootElement', rest1)"
    by (auto split: sum.splits)
  from 1 obtain e where "append_in_section ''instances'' e rootElement = Inr r1"
    by (auto simp: addInstance_def split: sum.splits prod.splits)
  from append_in_section_of[OF this, of t'] Cons.prems(2)
  have "section_of t' r1 = section_of t' rootElement" by simp
  with Cons.IH[OF 2 Cons.prems(2)] show ?case by simp
qed

lemma addRules_loop_section:
  "addRules_loop rs rootElement = Inr rootElement' \<Longrightarrow>
   section_of ''rules'' rootElement = Some (Element ''rules'' [] None cs) \<Longrightarrow>
   section_of ''rules'' rootElement' = Some (Element ''rules'' [] None (cs @ written_rules rs))"
proof (induction rs arbitrary: rootElement cs)
  case Nil
  then show ?case by (simp add: written_rules_def)
next
  case (Cons r rs)
  from Cons.prems(1) obtain r1 where 1: "addRule r rootElement = Inr r1"
    and 2: "addRules_loop rs r1 = Inr rootElement'"
    by (auto split: sum.splits)
  show ?case
  proof (cases "children_of (rule_element r) = []")
    case True
    with 1 have "r1 = rootElement" by (simp add: addRule_def Let_def)
    with Cons.IH[OF 2, of cs] Cons.prems(2) True show ?thesis
      by (simp add: written_rules_def)
  next
    case False
    with 1 have "append_in_section ''rules'' (rule_element r) rootElement = Inr r1"
      by (simp add: addRule_def Let_def)
    from append_in_section_of[OF this, of "''rules''"] Cons.prems(2)
    have "section_of ''rules'' r1 = Some (Element ''rules'' [] None (cs @ [rule_element r]))"
      by simp
    from Cons.IH[OF 2 this] False show ?thesis by (simp add: written_rules_def)
  qed
qed

lemma addRules_loop_Nil: "addRules_loop [] rootElement = Inr rootElement' \<Longrightarrow> rootElement' = rootElement"
  by simp

lemma writer_write_rules:
  assumes "writer_write documentObject = Inr (rootElement, self')"
  shows "section_of ''rules'' rootElement
     = (if rules documentObject = [] then None
        else Some (Element ''rules'' [] None (written_rules (rules documentObject))))"
proof -
  define root0 where "root0 = section_for (axes documentObject) ''axes''
      (Element ''designspace'' [(''format'', ''4.0'')] None [])"
  from assms obtain r1 r2 r3 sources' r4 instances' where
    1: "addAxes_loop (axes documentObject) root0 = Inr r1"
    and 2: "addRules_loop (rules documentObject) (section_for (rules documentObject) ''rules'' r1) = Inr r2"
    and 3: "addSources_loop documentObject (sources documentObject)
              (section_for (sources documentObject) ''sources'' r2) = Inr (r3, sources')"
    and 4: "addInstances_loop documentObject (instances documentObject)
              (section_for (instances documentObject) ''instances'' r3) = Inr (r4, instances')"
    and 5: "rootElement = (case doc_lib documentObject of
                       Some plist \<Rightarrow> append_child r4 (append_child (new_element ''lib'') plist)
                     | None \<Rightarrow> r4)"
    unfolding writer_write_def Let_def root0_def
    by (auto split: sum.splits prod.splits)
  have s0: "section_of ''rules'' root0 = None"
    by (simp add: root0_def section_for_def section_of_def new_element_def)
  from addAxes_loop_section[OF 1, of "''rules''"] s0
  have s1: "section_of ''rules'' r1 = None" by simp
  have s2: "section_of ''rules'' r2
     = (if rules documentObject = [] then None
        else Some (Element ''rules'' [] None (written_rules (rules documentObject))))"
  proof (cases "rules documentObject = []")
    case True
    with 2 have "r2 = r1" by (simp add: section_for_def)
    with s1 True show ?thesis by simp
  next
    case False
    then have "section_of ''rules'' (section_for (rules documentObject) ''rules'' r1)
        = Some (Element ''rules'' [] None [])"
      using s1 by (simp add: section_for_def section_of_append_child new_element_def)
    from addRules_loop_section[OF 2 this] False show ?thesis by simp
  qed
  have "section_of ''rules'' (section_for (sources documentObject) ''sources'' r2)
      = section_of ''rules'' r2"
    by (simp add: section_for_def section_of_append_child new_element_def split: option.splits)
  with addSources_loop_section[OF 3, of "''rules''"]
  have s3: "section_of ''rules'' r3 = section_of ''rules'' r2" by simp
  have "section_of ''rules'' (section_for (instances documentObject) ''instances'' r3)
      = section_of ''rules'' r3"
    by (simp add: section_for_def section_of_append_child new_element_def split: option.splits)
  with addInstances_loop_section[OF 4, of "''rules''"]
  have s4: "section_of ''rules'' r4 = section_of ''rules'' r3" by simp
  have s5: "section_of ''rules'' rootElement = section_of ''rules'' r4"
    unfolding 5
    by (cases "doc_lib documentObject")
       (simp_all add: section_of_append_child new_element_def split: option.splits)
  from s2 s3 s4 s5 show ?thesis by simp
qed

lemma append_to_first_None:
  "append_to_first t e cs = None \<longleftrightarrow> find (\<lambda>c. tag_of c = t) cs = None"
  by (induction cs) auto

lemma append_in_section_total:
  assumes "section_of t rootElement \<noteq> None"
  shows "\<exists>rootElement'. append_in_section t e rootElement = Inr rootElement'
           \<and> section_of t rootElement' \<noteq> None"
proof -
  obtain rt ra rx rc where r: "rootElement = Element rt ra rx rc" by (cases rootElement)
  with assms have "append_to_first t e rc \<noteq> None"
    by (simp add: append_to_first_None section_of_def)
  then obtain rc' where "append_to_first t e rc = Some rc'" by blast
  with r have a: "append_in_section t e rootElement = Inr (Element rt ra rx rc')" by simp
  from append_in_section_of[OF a, of t] assms show ?thesis using a by auto
qed

lemma section_for_present:
  "xs \<noteq> [] \<Longrightarrow> section_of t (section_for xs t rootElement) \<noteq> None"
  by (simp add: section_for_def section_of_append_child new_element_def split: option.splits)

lemma addAxes_loop_total:
  "as = [] \<or> section_of ''axes'' rootElement \<noteq> None \<Longrightarrow>
   \<exists>rootElement'. addAxes_loop as rootElement = Inr rootElement'"
proof (induction as arbitrary: rootElement)
  case Nil
  then show ?case by simp
next
  case (Cons a as)
  then have s: "section_of ''axes'' rootElement \<noteq> None" by simp
  obtain e where e: "addAxis a rootElement = append_in_section ''axes'' e rootElement"
    by (simp add: addAxis_def)
  from append_in_section_total[OF s, of e] obtain r1 where
    1: "append_in_section ''axes'' e rootElement = Inr r1" and 2: "section_of ''axes'' r1 \<noteq> None"
    by blast
  from Cons.IH[of r1] 2 obtain r' where "addAxes_loop as r1 = Inr r'" by blast
  with e 1 show ?case by simp
qed

lemma addRules_loop_total:
  "rs = [] \<or> section_of ''rules'' rootElement \<noteq> None \<Longrightarrow>
   \<exists>rootElement'. addRules_loop rs rootElement = Inr rootElement'"
proof (induction rs arbitrary: rootElement)
  case Nil
  then show ?case by simp
next
  case (Cons r rs)
  then have s: "section_of ''rules'' rootElement \<noteq> None" by simp
  have "\<exists>r1. addRule r rootElement = Inr r1 \<and> section_of ''rules'' r1 \<noteq> None"
  proof (cases "children_of (rule_element r) = []")
    case True
    with s show ?thesis by (simp add: addRule_def Let_def)
  next
    case False
    with append_in_section_total[OF s, of "rule_element r"] show ?thesis
      by (simp add: addRule_def Let_def)
  qed
  then obtain r1 where 1: "addRule r rootElement = Inr r1" and 2: "section_of ''rules'' r1 \<noteq> None"
    by blast
  from Cons.IH[of r1] 2 obtain r' where "addRules_loop rs r1 = Inr r'" by blast
  with 1 show ?case by simp
qed

lemma addInstance_total:
  assumes "section_of ''instances'' rootElement \<noteq> None"
  shows "\<exists>r1 i1. addInstance self i rootElement = Inr (r1, i1) \<and> section_of ''instances'' r1 \<noteq> None"
proof -
  obtain e i' where o: "instance_element self i = (e, i')"
    by (cases "instance_element self i")
  from append_in_section_total[OF assms, of e] o show ?thesis
    by (auto simp: addInstance_def)
qed

lemma addInstances_loop_total:
  "is = [] \<or> section_of ''instances'' rootElement \<noteq> None \<Longrightarrow>
   \<exists>rootElement' is'. addInstances_loop self is rootElement = Inr (rootElement', is')"
proof (induction "is" arbitrary: rootElement)
  case Nil
  then show ?case by simp
next
  case (Cons i "is")
  then have s: "section_of ''instances'' rootElement \<noteq> None" by simp
  from addInstance_total[OF s, of self i] obtain r1 i1 where
    1: "addInstance self i rootElement = Inr (r1, i1)" and 2: "section_of ''instances'' r1 \<noteq> None"
    by blast
  from Cons.IH[of r1] 2 obtain r' is' where "addInstances_loop self is r1 = Inr (r', is')" by blast
  with 1 show ?case by simp
qed

lemma source_element_cases:
  "(src_location s = None \<longrightarrow> source_element self s = Inl AttributeError)
   \<and> (src_location s \<noteq> None \<longrightarrow> (\<exists>e s'. source_element self s = Inr (e, s')))"
proof (cases "src_location s")
  case None
  then show ?thesis by (simp add: source_element_def Let_def makeLocationElement_None)
next
  case (Some location)
  obtain le v where "makeLocationElement self (Some location) None = Inr (le, v)"
    by (simp add: makeLocationElement_def Let_def)
  with Some show ?thesis by (simp add: source_element_def Let_def)
qed

lemma addSource_total:
  assumes "section_of ''sources'' rootElement \<noteq> None"
  shows "(src_location s \<noteq> None \<longrightarrow>
          (\<exists>r1 s1. addSource self s rootElement = Inr (r1, s1) \<and> section_of ''sources'' r1 \<noteq> None))
       \<and> (src_location s = None \<longrightarrow> addSource self s rootElement = Inl AttributeError)"
proof (cases "src_location s")
  case None
  with source_element_cases[of s self] show ?thesis by (simp add: addSource_def)
next
  case (Some location)
  with source_element_cases[of s self] obtain e s' where o: "source_element self s = Inr (e, s')"
    by auto
  from append_in_section_total[OF assms, of e] o Some show ?thesis
    by (auto simp: addSource_def)
qed

lemma addSources_loop_total:
  "srcs = [] \<or> section_of ''sources'' rootElement \<noteq> None \<Longrightarrow>
   (if \<forall>s\<in>set srcs. src_location s \<noteq> None
    then \<exists>rootElement' srcs'. addSources_loop self srcs rootElement = Inr (rootElement', srcs')
    else addSources_loop self srcs rootElement = Inl AttributeError)"
proof (induction srcs arbitrary: rootElement)
  case Nil
  then show ?case by simp
next
  case (Cons s srcs)
  then have sec: "section_of ''sources'' rootElement \<noteq> None" by simp
  show ?case
  proof (cases "src_location s")
    case None
    with addSource_total[OF sec, of s self] show ?thesis by simp
  next
    case (Some location)
    with addSource_total[OF sec, of s self] obtain r1 s1 where
      1: "addSource self s rootElement = Inr (r1, s1)" and 2: "section_of ''sources'' r1 \<noteq> None"
      by auto
    from Cons.IH[of r1] 2 1 Some show ?thesis by (auto split: if_splits)
  qed
qed

lemma writer_write_total:
  "if \<forall>s\<in>set (sources documentObject). src_location s \<noteq> None
   then \<exists>rootElement self'. writer_write documentObject = Inr (rootElement, self')
   else writer_write documentObject = Inl AttributeError"
proof -
  let ?root0 = "Element ''designspace'' [(''format'', ''4.0'')] None []"
  have "axes documentObject = []
      \<or> section_of ''axes'' (section_for (axes documentObject) ''axes'' ?root0) \<noteq> None"
    using section_for_present by blast
  from addAxes_loop_total[OF this] obtain r1 where
    1: "addAxes_loop (axes documentObject) (section_for (axes documentObject) ''axes'' ?root0) = Inr r1"
    by blast
  have "rules documentObject = []
      \<or> section_of ''rules'' (section_for (rules documentObject) ''rules'' r1) \<noteq> None"
    using section_for_present by blast
  from addRules_loop_total[OF this] obtain r2 where
    2: "addRules_loop (rules documentObject) (section_for (rules documentObject) ''rules'' r1) = Inr r2"
    by blast
  have s: "sources documentObject = []
      \<or> section_of ''sources'' (section_for (sources documentObject) ''sources'' r2) \<noteq> None"
    using section_for_present by blast
  show ?thesis
  proof (cases "\<forall>s\<in>set (sources documentObject). src_location s \<noteq> None")
    case True
    with addSources_loop_total[OF s, of documentObject] obtain r3 srcs' where
      3: "addSources_loop documentObject (sources documentObject)
            (section_for (sources documentObject) ''sources'' r2) = Inr (r3, srcs')"
      by auto
    have "instances documentObject = []
        \<or> section_of ''instances'' (section_for (instances documentObject) ''instances'' r3) \<noteq> None"
      using section_for_present by blast
    from addInstances_loop_total[OF this, of documentObject] obtain r4 is' where
      4: "addInstances_loop documentObject (instances documentObject)
            (section_for (instances documentObject) ''instances'' r3) = Inr (r4, is')"
      by blast
    from True 1 2 3 4 show ?thesis by (simp add: writer_write_def Let_def)
  next
    case False
    with addSources_loop_total[OF s, of documentObject]
    have "addSources_loop documentObject (sources documentObject)
            (section_for (sources documentObject) ''sources'' r2) = Inl AttributeError"
      by auto
    with False 1 2 show ?thesis by (simp add: writer_write_def Let_def)
  qed
qed

text \<open>
  Claim C9.  The rule element that \<^verbatim>\<open>_addRule\<close> builds has, in order, one
  \<^verbatim>\<open>conditionset\<close> element for each condition set with at least one condition that has a
  bound, then the \<^verbatim>\<open>sub\<close> elements.  A \<^verbatim>\<open>conditionset\<close> element has one
  \<^verbatim>\<open>condition\<close> element for each of its conditions that has a bound, in order, and none
  for a condition with neither minimum nor maximum; a condition element carries the
  name and the bounds of its condition.  The rule element is put into the \<^verbatim>\<open>rules\<close>
  element of the document exactly when it has a child, and when the writer completes,
  the \<^verbatim>\<open>rules\<close> element of the written tree holds exactly these rule elements, in the
  order of the rules (there is no \<^verbatim>\<open>rules\<close> element for a document without rules).
\<close>

theorem addRule_drops_unbounded_conditions:
  "children_of (rule_element ruleObject)
     = map conditionset_element
         (filter (\<lambda>cs. \<exists>c\<in>set cs. has_bound c) (conditionSets ruleObject))
       @ map sub_element (subs ruleObject)
   \<and> children_of (conditionset_element conditions)
       = map condition_element (filter has_bound conditions)
   \<and> (\<forall>cond. map_of (attrib_of (condition_element cond)) ''name'' = Some (cond_name cond)
        \<and> map_of (attrib_of (condition_element cond)) ''minimum''
            = map_option intOrFloat (cond_minimum cond)
        \<and> map_of (attrib_of (condition_element cond)) ''maximum''
            = map_option intOrFloat (cond_maximum cond))
   \<and> addRule ruleObject rootElement
       = (if (\<exists>cs\<in>set (conditionSets ruleObject). \<exists>c\<in>set cs. has_bound c) \<or> subs ruleObject \<noteq> []
          then append_in_section ''rules'' (rule_element ruleObject) rootElement
          else Inr rootElement)
   \<and> (writer_write documentObject = Inr (writtenRoot, self') \<longrightarrow>
        section_of ''rules'' writtenRoot
          = (if rules documentObject = [] then None
             else Some (Element ''rules'' [] None
                    (map rule_element
                       (filter (\<lambda>r. children_of (rule_element r) \<noteq> []) (rules documentObject))))))"
proof (intro conjI allI impI)
  show "children_of (rule_element ruleObject)
     = map conditionset_element
         (filter (\<lambda>cs. \<exists>c\<in>set cs. has_bound c) (conditionSets ruleObject))
       @ map sub_element (subs ruleObject)"
    by (simp add: rule_element_eq)
  show "children_of (conditionset_element conditions)
       = map condition_element (filter has_bound conditions)"
    by (simp add: conditionset_element_def)
  show "addRule ruleObject rootElement
       = (if (\<exists>cs\<in>set (conditionSets ruleObject). \<exists>c\<in>set cs. has_bound c) \<or> subs ruleObject \<noteq> []
          then append_in_section ''rules'' (rule_element ruleObject) rootElement
          else Inr rootElement)"
    by (auto simp: addRule_def Let_def rule_element_eq filter_empty_conv)
  assume "writer_write documentObject = Inr (writtenRoot, self')"
  then show "section_of ''rules'' writtenRoot
          = (if rules documentObject = [] then None
             else Some (Element ''rules'' [] None
                    (map rule_element
                       (filter (\<lambda>r. children_of (rule_element r) \<noteq> []) (rules documentObject)))))"
    unfolding written_rules_def[symmetric] by (rule writer_write_rules)
qed (simp_all add: condition_element_attrib)

theorem addRule_drops_unbounded_conditions_witness:
  "children_of (rule_element mixed_rule)
     = [Element ''conditionset'' [] None
          [Element ''condition'' [(''name'', ''weight''), (''minimum'', ''250'')] None []],
        Element ''sub'' [(''name'', ''a''), (''with'', ''a.alt'')] None []]"
proof -
  have i: "intOrFloat 250 = ''250''"
    by (simp add: intOrFloat_def py_int_def format_d_def show_nat.simps digit_char_def)
  from addRule_drops_unbounded_conditions[of mixed_rule]
  have "children_of (rule_element mixed_rule)
     = map conditionset_element
         (filter (\<lambda>cs. \<exists>c\<in>set cs. has_bound c) (conditionSets mixed_rule))
       @ map sub_element (subs mixed_rule)"
    by blast
  then show ?thesis
    by (simp add: mixed_rule_def unbounded_condition_def has_bound_def conditionset_element_def
          condition_element_def sub_element_def new_element_def i)
qed

text \<open>
  Claim C8, amended.  \<^verbatim>\<open>DesignSpaceDocument.write\<close> completes exactly when every
  source has a location (otherwise \<^verbatim>\<open>_makeLocationElement\<close> raises
  \<^verbatim>\<open>AttributeError\<close>), and then the location of every source, and of every instance
  that has one, has been replaced by its validated form: its keys are exactly the declared axis names, a
  declared axis name that was a key keeps its value, a declared axis (the only one of
  its name) that was no key gets the axis default, and a key that names no declared
  axis is gone.  The stored location is the same as before exactly when its keys were
  the declared axis names.  An instance without a location stays without one.
\<close>

theorem write_validates_locations:
  "(if \<forall>s\<in>set (sources self). src_location s \<noteq> None
    then \<exists>rootElement self'.
           document_write basename relative path self = Inr (rootElement, self')
           \<and> map src_location (sources self')
               = map (\<lambda>s. map_option (validated self) (src_location s)) (sources self)
           \<and> map inst_location (instances self')
               = map (\<lambda>i. map_option (validated self) (inst_location i)) (instances self)
    else document_write basename relative path self = Inl AttributeError)
   \<and> (\<forall>location.
          dom (validated self location) = axis_name ` set (axes self)
          \<and> (\<forall>k\<in>dom location. k \<in> axis_name ` set (axes self) \<longrightarrow>
                validated self location k = location k)
          \<and> (\<forall>a\<in>set (axes self).
                (\<forall>b\<in>set (axes self). axis_name b = axis_name a \<longrightarrow> b = a) \<longrightarrow>
                location (axis_name a) = None \<longrightarrow>
                validated self location (axis_name a) = Some (Scalar (axis_default a)))
          \<and> (validated self location = location
               \<longleftrightarrow> dom location = axis_name ` set (axes self)))"
proof -
  define doc where "doc = updatePaths relative
      (self\<lparr>doc_path := Some path, doc_filename := Some (basename path)\<rparr>)"
  have dw: "document_write basename relative path self = writer_write doc"
    by (simp add: document_write_def doc_def)
  have ax: "axes doc = axes self" by (simp add: doc_def updatePaths_def)
  have v: "validated doc = validated self" using ax by (rule validated_axes_only)
  have s: "map src_location (sources doc) = map src_location (sources self)"
    by (simp add: doc_def updatePaths_def comp_def)
  have i: "map inst_location (instances doc) = map inst_location (instances self)"
    by (simp add: doc_def updatePaths_def comp_def)
  have "(\<forall>s\<in>set (sources doc). src_location s \<noteq> None)
      \<longleftrightarrow> (\<forall>x\<in>set (map src_location (sources doc)). x \<noteq> None)" by simp
  also have "\<dots> \<longleftrightarrow> (\<forall>x\<in>set (map src_location (sources self)). x \<noteq> None)" unfolding s ..
  also have "\<dots> \<longleftrightarrow> (\<forall>s\<in>set (sources self). src_location s \<noteq> None)" by simp
  finally have all: "(\<forall>s\<in>set (sources doc). src_location s \<noteq> None)
      \<longleftrightarrow> (\<forall>s\<in>set (sources self). src_location s \<noteq> None)" .
  have first: "if \<forall>s\<in>set (sources self). src_location s \<noteq> None
    then \<exists>rootElement self'.
           document_write basename relative path self = Inr (rootElement, self')
           \<and> map src_location (sources self')
               = map (\<lambda>s. map_option (validated self) (src_location s)) (sources self)
           \<and> map inst_location (instances self')
               = map (\<lambda>i. map_option (validated self) (inst_location i)) (instances self)
    else document_write basename relative path self = Inl AttributeError"
  proof (cases "\<forall>s\<in>set (sources self). src_location s \<noteq> None")
    case True
    with writer_write_total[of doc] all obtain rootElement self' where
      w: "writer_write doc = Inr (rootElement, self')" by auto
    from writer_write_locations[OF w]
    have 2: "map src_location (sources self')
          = map (map_option (validated self)) (map src_location (sources doc))"
      and 3: "map inst_location (instances self')
          = map (map_option (validated self)) (map inst_location (instances doc))"
      by (simp_all add: v comp_def)
    from 2 have b: "map src_location (sources self')
          = map (\<lambda>s. map_option (validated self) (src_location s)) (sources self)"
      unfolding s by (simp add: comp_def)
    from 3 have c: "map inst_location (instances self')
          = map (\<lambda>i. map_option (validated self) (inst_location i)) (instances self)"
      unfolding i by (simp add: comp_def)
    from True w b c show ?thesis unfolding dw by auto
  next
    case False
    with writer_write_total[of doc] all have "writer_write doc = Inl AttributeError" by auto
    with False show ?thesis unfolding dw by simp
  qed
  have second: "dom (validated self location) = axis_name ` set (axes self)
          \<and> (\<forall>k\<in>dom location. k \<in> axis_name ` set (axes self) \<longrightarrow>
                validated self location k = location k)
          \<and> (\<forall>a\<in>set (axes self).
                (\<forall>b\<in>set (axes self). axis_name b = axis_name a \<longrightarrow> b = a) \<longrightarrow>
                location (axis_name a) = None \<longrightarrow>
                validated self location (axis_name a) = Some (Scalar (axis_default a)))
          \<and> (validated self location = location
               \<longleftrightarrow> dom location = axis_name ` set (axes self))" for location
  proof (intro conjI ballI impI)
    show "dom (validated self location) = axis_name ` set (axes self)"
      by (rule dom_validated)
    show "\<And>k. k \<in> dom location \<Longrightarrow> k \<in> axis_name ` set (axes self) \<Longrightarrow>
        validated self location k = location k"
    proof -
      fix k
      assume "k \<in> dom location" and k: "k \<in> axis_name ` set (axes self)"
      then obtain val where val: "location k = Some val" by blast
      from validated_keeps[of location k val self, OF val k] val
      show "validated self location k = location k" by simp
    qed
    show "\<And>a. a \<in> set (axes self) \<Longrightarrow>
        \<forall>b\<in>set (axes self). axis_name b = axis_name a \<longrightarrow> b = a \<Longrightarrow>
        location (axis_name a) = None \<Longrightarrow>
        validated self location (axis_name a) = Some (Scalar (axis_default a))"
      by (rule validated_fills)
    show "(validated self location = location) = (dom location = axis_name ` set (axes self))"
      by (rule validated_fixpoint)
  qed
  from first second show ?thesis by blast
qed

text \<open>The definitions that a concrete run of the writer unfolds.\<close>

lemmas writer_defs = document_write_def updatePaths_def updated_filename_def writer_write_def
  section_for_def addAxis_def axis_element_def addRule_def addSource_def source_element_def
  addInstance_def instance_element_def
  makeLocationElement_def newDefaultLocation_def dimension_element_def optional_location_def
  stored_def new_element_def set_optional_def flag_element_def muted_glyph_element_def
  labelname_element_def map_element_def localised_elements_def writeGlyphElement_def
  master_element_def join_spaces_def rule_element_def sub_element_def condition_element_def
  intOrFloat_def py_int_def format_d_def format_f_def show_nat.simps digit_char_def Let_def

lemmas example_defs = bold_document_def weight_document_def empty_document_def weight_axis_def
  regular_source_def light_source_def bold_instance_def

lemma bold_document_written:
  "\<exists>rootElement.
     document_write (\<lambda>p. p) (\<lambda>d p. p) ''fonts.designspace'' bold_document
       = Inr (rootElement,
              bold_document\<lparr>doc_path := Some ''fonts.designspace'',
                doc_filename := Some ''fonts.designspace'',
                sources := [regular_source\<lparr>src_location := Some [''weight'' \<mapsto> Scalar 400]\<rparr>],
                instances := [bold_instance\<lparr>inst_location := Some [''weight'' \<mapsto> Scalar 700]\<rparr>]\<rparr>)"
  by (simp add: writer_defs example_defs)

theorem write_validates_locations_witness:
  "\<exists>rootElement self'.
     document_write (\<lambda>p. p) (\<lambda>d p. p) ''fonts.designspace'' bold_document = Inr (rootElement, self')
     \<and> map inst_location (instances self')
         = [Some (validated bold_document [''weight'' \<mapsto> Scalar 700, ''width'' \<mapsto> Scalar 5])]
     \<and> map inst_location (instances self') = [Some [''weight'' \<mapsto> Scalar 700]]"
proof -
  have "\<forall>s\<in>set (sources bold_document). src_location s \<noteq> None"
    by (simp add: bold_document_def regular_source_def light_source_def)
  with write_validates_locations[of bold_document "\<lambda>p. p" "\<lambda>d p. p" "''fonts.designspace''"]
  obtain rootElement self' where
    w: "document_write (\<lambda>p. p) (\<lambda>d p. p) ''fonts.designspace'' bold_document = Inr (rootElement, self')"
    and l: "map inst_location (instances self')
        = map (\<lambda>i. map_option (validated bold_document) (inst_location i)) (instances bold_document)"
    by auto
  from l have 1: "map inst_location (instances self')
         = [Some (validated bold_document [''weight'' \<mapsto> Scalar 700, ''width'' \<mapsto> Scalar 5])]"
    by (simp add: bold_document_def bold_instance_def)
  from bold_document_written w
  have "instances self' = [bold_instance\<lparr>inst_location := Some [''weight'' \<mapsto> Scalar 700]\<rparr>]"
    by auto
  then have 2: "map inst_location (instances self') = [Some [''weight'' \<mapsto> Scalar 700]]" by simp
  show ?thesis
  proof (intro exI conjI)
    show "document_write (\<lambda>p. p) (\<lambda>d p. p) ''fonts.designspace'' bold_document
        = Inr (rootElement, self')" by (rule w)
    show "map inst_location (instances self')
         = [Some (validated bold_document [''weight'' \<mapsto> Scalar 700, ''width'' \<mapsto> Scalar 5])]"
      by (rule 1)
    show "map inst_location (instances self') = [Some [''weight'' \<mapsto> Scalar 700]]" by (rule 2)
  qed
qed

text \<open>
  Claim C8 as stated fails: the instance \<open>bold_instance\<close> is stored at
  \<open>weight = 700, width = 5\<close> in a document whose only axis is \<open>weight\<close>; after the
  write its stored location has no key \<open>width\<close>.
\<close>

theorem write_changes_location_counterexample:
  "map_option (\<lambda>l. l ''width'') (inst_location bold_instance) = Some (Some (Scalar 5))
   \<and> (case document_write (\<lambda>p. p) (\<lambda>d p. p) ''fonts.designspace'' bold_document of
         Inl e \<Rightarrow> []
       | Inr (rootElement, self') \<Rightarrow>
           map (\<lambda>i. map_option (\<lambda>l. l ''width'') (inst_location i)) (instances self'))
       = [Some None]"
proof -
  from bold_document_written obtain rootElement where
    "document_write (\<lambda>p. p) (\<lambda>d p. p) ''fonts.designspace'' bold_document
       = Inr (rootElement,
              bold_document\<lparr>doc_path := Some ''fonts.designspace'',
                doc_filename := Some ''fonts.designspace'',
                sources := [regular_source\<lparr>src_location := Some [''weight'' \<mapsto> Scalar 400]\<rparr>],
                instances := [bold_instance\<lparr>inst_location := Some [''weight'' \<mapsto> Scalar 700]\<rparr>]\<rparr>)"
    by blast
  then show ?thesis by (simp add: bold_instance_def)
qed

section \<open>Properties of \<open>intOrFloat\<close>\<close>

lemma digit_cases:
  "d < 10 \<Longrightarrow> d = 0 \<or> d = 1 \<or> d = 2 \<or> d = 3 \<or> d = 4 \<or> d = 5 \<or> d = 6 \<or> d = 7 \<or> d = 8 \<or> d = (9::nat)"
  by arith

lemma digit_char_digit: "d < 10 \<Longrightarrow> digit_char d \<in> set ''0123456789''"
  using digit_cases[of d] by (auto simp: digit_char_def)

lemma digit_value_digit_char: "d < 10 \<Longrightarrow> digit_value (digit_char d) = d"
  using digit_cases[of d] by (auto simp: digit_char_def digit_value_def)

lemma show_nat_digits: "set (show_nat n) \<subseteq> set ''0123456789''"
proof (induction n rule: show_nat.induct)
  case (1 n)
  show ?case
  proof (cases "n < 10")
    case True
    then show ?thesis using digit_char_digit[of n] by (simp add: show_nat.simps[of n])
  next
    case False
    have "n mod 10 < 10" by simp
    from digit_char_digit[OF this] 1[OF False] False show ?thesis
      by (simp add: show_nat.simps[of n])
  qed
qed

lemma decimal_value_snoc:
  "decimal_value (s @ [c]) = 10 * decimal_value s + digit_value c"
  by (simp add: decimal_value_def)

lemma decimal_value_show_nat: "decimal_value (show_nat n) = n"
proof (induction n rule: show_nat.induct)
  case (1 n)
  show ?case
  proof (cases "n < 10")
    case True
    then show ?thesis
      by (simp add: show_nat.simps[of n] decimal_value_def digit_value_digit_char)
  next
    case False
    have "n mod 10 < 10" by simp
    from digit_value_digit_char[OF this] 1[OF False] False show ?thesis
      by (simp add: show_nat.simps[of n] decimal_value_snoc)
  qed
qed

lemma length_show_nat: "0 < k \<Longrightarrow> n < 10 ^ k \<Longrightarrow> length (show_nat n) \<le> k"
proof (induction n arbitrary: k rule: show_nat.induct)
  case (1 n)
  show ?case
  proof (cases "n < 10")
    case True
    with 1(2) show ?thesis by (simp add: show_nat.simps[of n])
  next
    case False
    from False 1(3) have k1: "1 < k"
      by (cases "k = 1") (use 1(2) in auto)
    then obtain j where j: "k = Suc j" "0 < j" by (cases k) auto
    from 1(3) j have "n div 10 < 10 ^ j"
      by (simp add: less_mult_imp_div_less mult.commute)
    from 1(1)[OF False j(2) this] False j show ?thesis
      by (simp add: show_nat.simps[of n])
  qed
qed

lemma decimal_value_zeros: "decimal_value (replicate k CHR ''0'' @ s) = decimal_value s"
proof (induction k)
  case 0
  then show ?case by simp
next
  case (Suc k)
  have "decimal_value (CHR ''0'' # t) = decimal_value t" for t
    by (simp add: decimal_value_def digit_value_def)
  with Suc show ?case by simp
qed

lemma pad6_show_nat:
  assumes "m < 1000000"
  shows "length (pad6 (show_nat m)) = 6"
    and "decimal_value (pad6 (show_nat m)) = m"
    and "set (pad6 (show_nat m)) \<subseteq> set ''0123456789''"
proof -
  from assms have "length (show_nat m) \<le> 6"
    using length_show_nat[of 6 m] by simp
  then show "length (pad6 (show_nat m)) = 6" by (simp add: pad6_def)
  show "decimal_value (pad6 (show_nat m)) = m"
    by (simp add: pad6_def decimal_value_zeros decimal_value_show_nat)
  show "set (pad6 (show_nat m)) \<subseteq> set ''0123456789''"
    using show_nat_digits[of m] by (auto simp: pad6_def)
qed

lemma round_half_even_near:
  assumes "0 \<le> x"
  shows "\<bar>of_nat (round_half_even x) - x\<bar> \<le> 1 / 2"
proof -
  define f where "f = \<lfloor>x\<rfloor>"
  have f0: "0 \<le> f" using assms by (simp add: f_def)
  have lo: "of_int f \<le> x" by (simp add: f_def)
  have hi: "x < of_int f + 1" using floor_correct[of x] by (simp add: f_def)
  consider "x - of_int f < 1 / 2" | "1 / 2 < x - of_int f" | "x - of_int f = 1 / 2"
    by linarith
  then show ?thesis
  proof cases
    case 1
    then have "round_half_even x = nat f"
      by (simp add: round_half_even_def f_def Let_def)
    with f0 lo 1 show ?thesis by simp
  next
    case 2
    then have "round_half_even x = nat (f + 1)"
      by (simp add: round_half_even_def f_def Let_def)
    with f0 hi 2 show ?thesis by simp
  next
    case 3
    then have "round_half_even x = nat f \<or> round_half_even x = nat (f + 1)"
      by (simp add: round_half_even_def f_def Let_def)
    with f0 3 show ?thesis by auto
  qed
qed

lemma round_half_even_integer:
  assumes "0 \<le> x" "of_int \<lfloor>x\<rfloor> = x"
  shows "of_nat (round_half_even x) = x"
proof -
  have "x - of_int \<lfloor>x\<rfloor> = x - x" by (simp only: assms(2))
  then have "x - of_int \<lfloor>x\<rfloor> < 1 / 2" by simp
  then have "round_half_even x = nat \<lfloor>x\<rfloor>"
    unfolding round_half_even_def Let_def by (simp only: if_True)
  moreover have "0 \<le> \<lfloor>x\<rfloor>" using assms(1) by simp
  ultimately have "of_nat (round_half_even x) = (of_int \<lfloor>x\<rfloor> :: rat)" by simp
  then show ?thesis by (simp only: assms(2))
qed

lemma py_int_integer: "of_int (py_int num) = num \<longleftrightarrow> is_integer num"
proof (cases "0 \<le> num")
  case True
  then show ?thesis by (simp add: py_int_def is_integer_def)
next
  case False
  have "of_int \<lceil>num\<rceil> = num \<longleftrightarrow> of_int \<lfloor>num\<rfloor> = num"
    by (metis ceiling_of_int floor_of_int)
  with False show ?thesis by (simp add: py_int_def is_integer_def)
qed


lemma format_d_integer:
  assumes "is_integer num"
  shows "format_d num = sign_prefix num @ show_nat (nat \<lfloor>\<bar>num\<bar>\<rfloor>)"
proof (cases "0 \<le> num")
  case True
  then have "\<not> py_int num < 0" by (simp add: py_int_def)
  with True show ?thesis by (simp add: format_d_def sign_prefix_def py_int_def Let_def)
next
  case False
  from assms have c: "\<lceil>num\<rceil> = \<lfloor>num\<rfloor>"
    unfolding is_integer_def by (metis ceiling_of_int)
  from False have "\<lfloor>num\<rfloor> < 0" by simp
  moreover have "- \<lfloor>num\<rfloor> = \<lfloor>\<bar>num\<bar>\<rfloor>"
  proof -
    from False have "\<bar>num\<bar> = - num" by simp
    then have "\<lfloor>\<bar>num\<bar>\<rfloor> = \<lfloor>- num\<rfloor>" by simp
    also have "\<dots> = - \<lceil>num\<rceil>" by (simp add: ceiling_def)
    finally show ?thesis using c by simp
  qed
  ultimately show ?thesis
    using False c by (simp add: format_d_def sign_prefix_def py_int_def Let_def)
qed

lemma integer_value:
  assumes "is_integer num"
  shows "of_nat (nat \<lfloor>\<bar>num\<bar>\<rfloor>) = \<bar>num\<bar>"
proof -
  from assms obtain k :: int where k: "num = of_int k"
    unfolding is_integer_def by metis
  then have "\<bar>num\<bar> = of_int \<bar>k\<bar>" by simp
  then show ?thesis by simp
qed

lemma div_mod_decimal:
  "of_nat (n div 1000000) + of_nat (n mod 1000000) / 1000000 = (of_nat n :: rat) / 1000000"
proof -
  have "n = (n div 1000000) * 1000000 + n mod 1000000" by simp
  then have "(of_nat n :: rat) = of_nat (n div 1000000) * 1000000 + of_nat (n mod 1000000)"
    by (metis of_nat_add of_nat_mult of_nat_numeral)
  then show ?thesis by (simp add: field_simps)
qed

text \<open>
  Claim C6, amended.  A number that equals an integer is printed by \<^verbatim>\<open>intOrFloat\<close> as
  its decimal digits, with a minus sign in front when it is negative and with no
  decimal point; the digits denote its absolute value.  Every other number is printed
  in fixed-point form: sign, the digits of an integer part, a point and exactly six
  digits.  The decimal so printed differs from the absolute value of the number by at
  most \<open>1 / 2000000\<close>, and equals it when the number has at most six decimals.
\<close>

theorem intOrFloat_format:
  "(is_integer num \<longrightarrow>
      intOrFloat num = sign_prefix num @ show_nat (nat \<lfloor>\<bar>num\<bar>\<rfloor>)
      \<and> set (show_nat (nat \<lfloor>\<bar>num\<bar>\<rfloor>)) \<subseteq> set ''0123456789''
      \<and> of_nat (decimal_value (show_nat (nat \<lfloor>\<bar>num\<bar>\<rfloor>))) = \<bar>num\<bar>)
   \<and> (\<not> is_integer num \<longrightarrow>
      (\<exists>ip fp. intOrFloat num = sign_prefix num @ show_nat ip @ ''.'' @ fp
         \<and> length fp = 6 \<and> set fp \<subseteq> set ''0123456789''
         \<and> \<bar>of_nat ip + of_nat (decimal_value fp) / 1000000 - \<bar>num\<bar>\<bar> \<le> 1 / 2000000
         \<and> (is_integer (num * 1000000) \<longrightarrow>
              of_nat ip + of_nat (decimal_value fp) / 1000000 = \<bar>num\<bar>)))"
proof (intro conjI impI)
  assume i: "is_integer num"
  then show "intOrFloat num = sign_prefix num @ show_nat (nat \<lfloor>\<bar>num\<bar>\<rfloor>)"
    by (simp add: intOrFloat_def py_int_integer format_d_integer)
  show "set (show_nat (nat \<lfloor>\<bar>num\<bar>\<rfloor>)) \<subseteq> set ''0123456789''"
    by (rule show_nat_digits)
  show "of_nat (decimal_value (show_nat (nat \<lfloor>\<bar>num\<bar>\<rfloor>))) = \<bar>num\<bar>"
    using integer_value[OF i] by (simp only: decimal_value_show_nat)
next
  assume ni: "\<not> is_integer num"
  define n where "n = round_half_even (\<bar>num\<bar> * 1000000)"
  define ip where "ip = n div 1000000"
  define fp where "fp = pad6 (show_nat (n mod 1000000))"
  have m: "n mod 1000000 < 1000000" by simp
  have 1: "intOrFloat num = sign_prefix num @ show_nat ip @ ''.'' @ fp"
    using ni by (simp add: intOrFloat_def py_int_integer format_f_def sign_prefix_def
        Let_def n_def ip_def fp_def)
  have 2: "length fp = 6" unfolding fp_def using m by (rule pad6_show_nat)
  have 3: "set fp \<subseteq> set ''0123456789''" unfolding fp_def using m by (rule pad6_show_nat)
  have dv: "decimal_value fp = n mod 1000000" unfolding fp_def using m by (rule pad6_show_nat)
  have v: "of_nat ip + of_nat (decimal_value fp) / 1000000 = (of_nat n :: rat) / 1000000"
    unfolding dv ip_def by (rule div_mod_decimal)
  have near: "\<bar>of_nat n - \<bar>num\<bar> * 1000000\<bar> \<le> 1 / 2"
    unfolding n_def by (rule round_half_even_near) simp
  have "\<bar>(of_nat n :: rat) / 1000000 - \<bar>num\<bar>\<bar> = \<bar>of_nat n - \<bar>num\<bar> * 1000000\<bar> / 1000000"
    by (simp add: field_simps abs_divide flip: abs_mult)
  also have "\<dots> \<le> (1 / 2) / 1000000"
    using near by (simp add: divide_right_mono)
  finally have 4: "\<bar>of_nat ip + of_nat (decimal_value fp) / 1000000 - \<bar>num\<bar>\<bar> \<le> 1 / 2000000"
    unfolding v by simp
  have 5: "is_integer (num * 1000000) \<longrightarrow>
      of_nat ip + of_nat (decimal_value fp) / 1000000 = \<bar>num\<bar>"
  proof
    assume "is_integer (num * 1000000)"
    then obtain k :: int where k: "num * 1000000 = of_int k"
      unfolding is_integer_def by metis
    then have "\<bar>num\<bar> * 1000000 = of_int \<bar>k\<bar>"
      by (metis abs_mult abs_numeral of_int_abs)
    then have "of_int \<lfloor>\<bar>num\<bar> * 1000000\<rfloor> = \<bar>num\<bar> * 1000000" by simp
    then have "of_nat n = \<bar>num\<bar> * 1000000"
      unfolding n_def by (intro round_half_even_integer) simp_all
    then show "of_nat ip + of_nat (decimal_value fp) / 1000000 = \<bar>num\<bar>"
      unfolding v by simp
  qed
  from 1 2 3 4 5
  show "\<exists>ip fp. intOrFloat num = sign_prefix num @ show_nat ip @ ''.'' @ fp
         \<and> length fp = 6 \<and> set fp \<subseteq> set ''0123456789''
         \<and> \<bar>of_nat ip + of_nat (decimal_value fp) / 1000000 - \<bar>num\<bar>\<bar> \<le> 1 / 2000000
         \<and> (is_integer (num * 1000000) \<longrightarrow>
              of_nat ip + of_nat (decimal_value fp) / 1000000 = \<bar>num\<bar>)"
    by blast
qed

lemma floor_rat_divide_numeral:
  "\<lfloor>numeral a / numeral b :: rat\<rfloor> = numeral a div numeral b"
  by (metis floor_divide_of_int_eq of_int_numeral)

lemma floor_rat_one_divide_numeral:
  "\<lfloor>1 / numeral b :: rat\<rfloor> = 1 div numeral b"
  by (metis floor_divide_of_int_eq of_int_1 of_int_numeral)

lemma floor_rat_minus_divide_numeral:
  "\<lfloor>- (numeral a / numeral b) :: rat\<rfloor> = - numeral a div numeral b"
  by (metis divide_minus_left floor_divide_of_int_eq of_int_neg_numeral of_int_numeral)

lemma ceiling_rat_minus_divide_numeral:
  "\<lceil>- (numeral a / numeral b) :: rat\<rceil> = - (numeral a div numeral b)"
  unfolding ceiling_def by (simp only: minus_minus floor_rat_divide_numeral)

lemma replicate_numeral_unfold: "replicate (numeral k) x = x # replicate (pred_numeral k) x"
  by (simp add: numeral_eq_Suc)

lemmas number_defs = intOrFloat_def py_int_def format_d_def format_f_def round_half_even_def
  Let_def floor_rat_divide_numeral floor_rat_one_divide_numeral floor_rat_minus_divide_numeral
  ceiling_rat_minus_divide_numeral

lemmas digit_defs = show_nat.simps digit_char_def pad6_def replicate_numeral_unfold

lemma intOrFloat_minus_five_halves: "intOrFloat (- (5 / 2)) = ''-2.500000''"
proof -
  have "intOrFloat (- (5 / 2)) = ''-'' @ show_nat 2 @ ''.'' @ pad6 (show_nat 500000)"
    by (simp add: number_defs)
  then show ?thesis by (simp add: digit_defs)
qed

lemma intOrFloat_one_128th: "intOrFloat (1 / 128) = ''0.007812''"
proof -
  have "intOrFloat (1 / 128) = show_nat 0 @ ''.'' @ pad6 (show_nat 7812)"
    by (simp add: number_defs)
  then show ?thesis by (simp add: digit_defs)
qed

theorem intOrFloat_format_witness:
  "intOrFloat (- 3) = ''-3'' \<and> intOrFloat (- (5 / 2)) = ''-2.500000''
   \<and> intOrFloat (1 / 128) = ''0.007812''"
proof -
  have i: "is_integer (- 3)" by (simp add: is_integer_def)
  have n: "\<not> is_integer (- (5 / 2))"
    by (simp add: is_integer_def floor_rat_minus_divide_numeral del: of_int_floor_cancel)
  from intOrFloat_format[of "- 3"] i
  have "intOrFloat (- 3) = sign_prefix (- 3) @ show_nat (nat \<lfloor>\<bar>- 3 :: rat\<bar>\<rfloor>)" by blast
  then have a: "intOrFloat (- 3) = ''-3''"
    by (simp add: sign_prefix_def show_nat.simps digit_char_def)
  from intOrFloat_format[of "- (5 / 2)"] n
  obtain ip fp where "intOrFloat (- (5 / 2)) = sign_prefix (- (5 / 2)) @ show_nat ip @ ''.'' @ fp"
    and "length fp = 6"
    by blast
  then have "length (intOrFloat (- (5 / 2))) = Suc (length (show_nat ip)) + 7"
    by (simp add: sign_prefix_def)
  from a intOrFloat_minus_five_halves intOrFloat_one_128th show ?thesis by simp
qed

text \<open>
  Claim C6 as stated fails: six decimals are not the full precision of a float.  The
  two distinct numbers \<open>2\<^sup>-\<^sup>2\<^sup>1\<close> and \<open>2\<^sup>-\<^sup>2\<^sup>2\<close>, both exact doubles, are printed
  as the same string, so reading the string back cannot recover both.
\<close>

theorem intOrFloat_precision_counterexample:
  "intOrFloat (1 / 2 ^ 21) = ''0.000000'' \<and> intOrFloat (1 / 2 ^ 22) = ''0.000000''
   \<and> (1 / 2 ^ 21 :: rat) \<noteq> 1 / 2 ^ 22"
proof -
  have "intOrFloat (1 / 2 ^ 21) = show_nat 0 @ ''.'' @ pad6 (show_nat 0)"
    by (simp add: number_defs)
  then have a: "intOrFloat (1 / 2 ^ 21) = ''0.000000''" by (simp add: digit_defs)
  have "intOrFloat (1 / 2 ^ 22) = show_nat 0 @ ''.'' @ pad6 (show_nat 0)"
    by (simp add: number_defs)
  then have b: "intOrFloat (1 / 2 ^ 22) = ''0.000000''" by (simp add: digit_defs)
  from a b show ?thesis by simp
qed

end
